theory Spec2Isabelle
  imports Complex_Main "HOL-Library.Word"
begin

section \<open>Numbers, bytes and failures\<close>

text \<open>
  The morphing code of \<^verbatim>\<open>src/src/Image.cpp\<close> (the part that starts at its second
  block of includes), \<^verbatim>\<open>LineSegment.hpp\<close> and the \<^verbatim>\<open>Vec2\<close> class of Algebra3 compute
  on \<^verbatim>\<open>double\<close>, \<^verbatim>\<open>int\<close> and \<^verbatim>\<open>unsigned char\<close>.

  \<^item> A \<^verbatim>\<open>double\<close> is a \<^typ>\<open>real\<close>, and every arithmetic operation on doubles rounds
    its exact result with \<open>fl\<close>: to the nearest number with a 53-bit significand, ties to
    the even one, as IEEE binary64 does, operation by operation (no fused multiply-add and
    no extended precision, as on x86-64). The exponent is not bounded: overflow to an
    infinity and underflow are not modelled.
  \<^item> What IEEE arithmetic answers with an infinity or a NaN (a division by zero, a pole or
    a domain error of \<^verbatim>\<open>pow\<close>) is the failure \<open>NonFinite\<close>: the model stops there and says
    nothing of what the program makes of that value afterwards.
  \<^item> An \<^verbatim>\<open>int\<close> has 32 bits. \<open>toInt\<close> is the conversion of a double as the x86-64
    instruction performs it: truncation towards zero, and \<open>-2\<^sup>3\<^sup>1\<close> when the value does not
    fit (undefined in C++). \<open>wrap32\<close> is the two's complement wrap-around of an \<^verbatim>\<open>int\<close>
    result (also undefined in C++, and what the compiled program does).
  \<^item> An \<^verbatim>\<open>unsigned char\<close> is an 8-bit word. Narrowing a \<^verbatim>\<open>double\<close> to it is defined
    by C++ only when the truncated value fits; otherwise it is \<open>Unrepresentable\<close>.
  \<^item> A read through a pixel pointer outside the buffer is \<open>OutOfBounds\<close>, a failed
    \<^verbatim>\<open>assert\<close> is \<open>AssertionFailed\<close>.
\<close>

type_synonym byte = "8 word"

datatype error = AssertionFailed | NonFinite | OutOfBounds | Unrepresentable

fun andThen :: "error + 'a \<Rightarrow> ('a \<Rightarrow> error + 'b) \<Rightarrow> error + 'b" where
  "andThen (Inl e) f = Inl e"
| "andThen (Inr x) f = f x"

fun mapM :: "('a \<Rightarrow> error + 'b) \<Rightarrow> 'a list \<Rightarrow> error + 'b list" where
  "mapM f [] = Inr []"
| "mapM f (x # xs) = andThen (f x) (\<lambda>y. andThen (mapM f xs) (\<lambda>ys. Inr (y # ys)))"

definition round_even :: "real \<Rightarrow> int" where
  \<comment> \<open>the nearest integer, a tie going to the even one\<close>
  "round_even m =
     (let f = \<lfloor>m\<rfloor>; d = m - of_int f
      in if d < 1 / 2 then f else if 1 / 2 < d then f + 1 else if even f then f else f + 1)"

definition fl :: "real \<Rightarrow> real" where
  \<comment> \<open>rounding to binary64: the significand \<open>x / 2\<^sup>e\<close> lies in \<open>[2\<^sup>5\<^sup>2, 2\<^sup>5\<^sup>3)\<close> and is rounded\<close>
  "fl x =
     (if x = 0 then 0
      else let e = \<lfloor>log 2 \<bar>x\<bar>\<rfloor> - 52
           in of_int (round_even (x / 2 powi e)) * 2 powi e)"

definition toInt :: "real \<Rightarrow> int" where
  \<comment> \<open>\<^verbatim>\<open>(int)x\<close>\<close>
  "toInt x =
     (let k = (if 0 \<le> x then \<lfloor>x\<rfloor> else \<lceil>x\<rceil>)
      in if - 2147483648 \<le> k \<and> k \<le> 2147483647 then k else - 2147483648)"

definition wrap32 :: "int \<Rightarrow> int" where
  "wrap32 k = (k + 2147483648) mod 4294967296 - 2147483648"

definition fdiv :: "real \<Rightarrow> real \<Rightarrow> error + real" where
  \<comment> \<open>\<^verbatim>\<open>x / y\<close> on doubles\<close>
  "fdiv x y = (if y = 0 then Inl NonFinite else Inr (fl (x / y)))"

definition pow :: "real \<Rightarrow> real \<Rightarrow> error + real" where
  \<comment> \<open>\<^verbatim>\<open>pow(x, y)\<close> of the C library on finite arguments, taken as correctly rounded\<close>
  "pow x y =
     (if y = 0 then Inr 1
      else if 0 < x then Inr (fl (x powr y))
      else if x = 0 then (if 0 < y then Inr 0 else Inl NonFinite)
      else if of_int \<lfloor>y\<rfloor> = y then Inr (fl (x powi \<lfloor>y\<rfloor>))
      else Inl NonFinite)"

definition narrow :: "real \<Rightarrow> error + byte" where
  \<comment> \<open>the conversion of a \<^verbatim>\<open>double\<close> to \<^verbatim>\<open>unsigned char\<close>: truncation towards zero\<close>
  "narrow z =
     (let k = (if 0 \<le> z then \<lfloor>z\<rfloor> else \<lceil>z\<rceil>)
      in if 0 \<le> k \<and> k \<le> 255 then Inr (word_of_int k) else Inl Unrepresentable)"

section \<open>Vec2 (Algebra3)\<close>

datatype vec2 = Vec2 (vx: real) (vy: real)

definition Vec2_add :: "vec2 \<Rightarrow> vec2 \<Rightarrow> vec2" where
  "Vec2_add a b = Vec2 (fl (vx a + vx b)) (fl (vy a + vy b))"

definition Vec2_sub :: "vec2 \<Rightarrow> vec2 \<Rightarrow> vec2" where
  "Vec2_sub a b = Vec2 (fl (vx a - vx b)) (fl (vy a - vy b))"

definition Vec2_scale :: "vec2 \<Rightarrow> real \<Rightarrow> vec2" where
  \<comment> \<open>\<^verbatim>\<open>a * d\<close>, and \<^verbatim>\<open>d * a\<close> which returns \<^verbatim>\<open>a * d\<close>\<close>
  "Vec2_scale a d = Vec2 (fl (d * vx a)) (fl (d * vy a))"

definition Vec2_dot :: "vec2 \<Rightarrow> vec2 \<Rightarrow> real" where
  "Vec2_dot a b = fl (fl (vx a * vx b) + fl (vy a * vy b))"

definition Vec2_div :: "vec2 \<Rightarrow> real \<Rightarrow> error + vec2" where
  \<comment> \<open>\<^verbatim>\<open>a / d\<close>: the components times \<^verbatim>\<open>d_inv = 1./d\<close>\<close>
  "Vec2_div a d =
     andThen (fdiv 1 d) (\<lambda>d_inv. Inr (Vec2 (fl (vx a * d_inv)) (fl (vy a * d_inv))))"

definition Vec2_length2 :: "vec2 \<Rightarrow> real" where
  "Vec2_length2 a = fl (fl (vx a * vx a) + fl (vy a * vy a))"

definition Vec2_length :: "vec2 \<Rightarrow> real" where
  "Vec2_length a = fl (sqrt (Vec2_length2 a))"

definition Vec2_perp :: "vec2 \<Rightarrow> vec2" where
  "Vec2_perp a = Vec2 (- vy a) (vx a)"

section \<open>LineSegment\<close>

datatype lineSegment = LineSegment (start: vec2) (endp: vec2)

definition length2 :: "lineSegment \<Rightarrow> real" where
  "length2 s = Vec2_length2 (Vec2_sub (endp s) (start s))"

definition seg_length :: "lineSegment \<Rightarrow> real" where
  "seg_length s = fl (sqrt (length2 s))"

definition direction :: "lineSegment \<Rightarrow> vec2" where
  "direction s = Vec2_sub (endp s) (start s)"

definition perp :: "lineSegment \<Rightarrow> vec2" where
  "perp s = Vec2_perp (direction s)"

definition lineParameter :: "lineSegment \<Rightarrow> vec2 \<Rightarrow> error + real" where
  "lineParameter s p =
     fdiv (Vec2_dot (Vec2_sub (endp s) (start s)) (Vec2_sub p (start s))) (length2 s)"

definition signedLineDistance :: "lineSegment \<Rightarrow> vec2 \<Rightarrow> error + real" where
  "signedLineDistance s p = fdiv (Vec2_dot (Vec2_sub p (start s)) (perp s)) (seg_length s)"

definition segmentDistance :: "lineSegment \<Rightarrow> vec2 \<Rightarrow> real \<Rightarrow> real \<Rightarrow> real" where
  \<comment> \<open>the three-argument overload. The header calls \<^verbatim>\<open>abs(v)\<close> unqualified and before any
      using-directive: with g++ and libstdc++ this is \<^verbatim>\<open>int abs(int)\<close>, so \<open>v\<close> is converted
      to \<^verbatim>\<open>int\<close> first and the \<^verbatim>\<open>int\<close> result is returned as a double.\<close>
  "segmentDistance s p u v =
     (if u < 0 then Vec2_length (Vec2_sub p (start s))
      else if u > 1 then Vec2_length (Vec2_sub p (start s))
      else of_int (wrap32 \<bar>toInt v\<bar>))"

definition lerp :: "lineSegment \<Rightarrow> lineSegment \<Rightarrow> real \<Rightarrow> lineSegment" where
  "lerp s target t =
     LineSegment (Vec2_add (Vec2_scale (start s) (fl (1 - t))) (Vec2_scale (start target) t))
                 (Vec2_add (Vec2_scale (endp s) (fl (1 - t))) (Vec2_scale (endp target) t))"

section \<open>Image\<close>

text \<open>
  The class keeps \<^verbatim>\<open>w\<close>, \<^verbatim>\<open>h\<close>, \<^verbatim>\<open>nc\<close> as \<^verbatim>\<open>int\<close> and a buffer of \<^verbatim>\<open>w * h * nc\<close>
  bytes, a product it computes in \<^verbatim>\<open>int\<close>; \<^verbatim>\<open>resize\<close> refuses negative dimensions. So
  the dimensions are naturals here, and a well-formed image has a buffer of that size
  with the dimensions and the size within the range of an \<^verbatim>\<open>int\<close>. \<^verbatim>\<open>pixel(row, col)\<close>
  is the pointer \<^verbatim>\<open>buf + (row * w + col) * nc\<close>: the model keeps the offset, and
  \<open>readByte\<close> is the read of the byte at an offset.
\<close>

record image =
  width :: nat
  height :: nat
  numChannels :: nat
  buf :: "byte list"

definition wf_image :: "image \<Rightarrow> bool" where
  "wf_image img \<longleftrightarrow>
     length (buf img) = width img * height img * numChannels img
     \<and> width img \<le> 2147483647 \<and> height img \<le> 2147483647 \<and> numChannels img \<le> 2147483647
     \<and> width img * height img * numChannels img \<le> 2147483647"

definition hasSameDimsAs :: "image \<Rightarrow> image \<Rightarrow> bool" where
  "hasSameDimsAs img other \<longleftrightarrow>
     width img = width other \<and> height img = height other \<and> numChannels img = numChannels other"

definition pixel :: "image \<Rightarrow> int \<Rightarrow> int \<Rightarrow> int" where
  "pixel img row col = (row * int (width img) + col) * int (numChannels img)"

definition readByte :: "image \<Rightarrow> int \<Rightarrow> error + byte" where
  "readByte img off =
     (if 0 \<le> off \<and> off < int (length (buf img)) then Inr (buf img ! nat off)
      else Inl OutOfBounds)"

definition forPixels :: "nat \<Rightarrow> nat \<Rightarrow> (nat \<Rightarrow> nat \<Rightarrow> error + byte list) \<Rightarrow> error + byte list" where
  \<comment> \<open>the scan \<^verbatim>\<open>for row < h, for col < w\<close> that fills the result, row-major\<close>
  "forPixels h w f =
     andThen (mapM (\<lambda>row. andThen (mapM (\<lambda>col. f row col) [0..<w]) (\<lambda>ps. Inr (concat ps)))
                [0..<h])
       (\<lambda>rows. Inr (concat rows))"

section \<open>sampleBilinear\<close>

definition clampLattice :: "int \<Rightarrow> int \<Rightarrow> int \<times> int" where
  \<comment> \<open>\<^verbatim>\<open>pc0 = max(0, min(col0, w-1)); pc1 = min(pc0 + 1, w-1)\<close>, and the same for rows\<close>
  "clampLattice c0 w = (let p0 = max 0 (min c0 (w - 1)); p1 = min (p0 + 1) (w - 1) in (p0, p1))"

definition sampleChannel ::
  "image \<Rightarrow> vec2 \<Rightarrow> int \<Rightarrow> int \<Rightarrow> int \<Rightarrow> int \<Rightarrow> int \<Rightarrow> int \<Rightarrow> int \<Rightarrow> int \<Rightarrow> nat \<Rightarrow> error + byte" where
  \<comment> \<open>the body of the channel loop\<close>
  "sampleChannel img loc col0 col1 row0 row1 pix00 pix01 pix10 pix11 channel =
     andThen (readByte img (pix00 + int channel)) (\<lambda>b00.
     andThen (readByte img (pix01 + int channel)) (\<lambda>b01.
     andThen (readByte img (pix10 + int channel)) (\<lambda>b10.
     andThen (readByte img (pix11 + int channel)) (\<lambda>b11.
       let res = 0;
           res = fl (res + fl (fl (real (unat b00) * fl (of_int col1 - vx loc)) * fl (of_int row1 - vy loc)));
           res = fl (res + fl (fl (real (unat b01) * fl (of_int col1 - vx loc)) * fl (vy loc - of_int row0)));
           res = fl (res + fl (fl (real (unat b10) * fl (vx loc - of_int col0)) * fl (of_int row1 - vy loc)));
           res = fl (res + fl (fl (real (unat b11) * fl (vx loc - of_int col0)) * fl (vy loc - of_int row0)))
       in Inr (word_of_int (min 255 (max 0 (toInt (of_int \<lfloor>res\<rfloor>)))))))))"

definition sampleBilinear :: "image \<Rightarrow> vec2 \<Rightarrow> error + byte list" where
  \<comment> \<open>the result is \<^verbatim>\<open>sampled_color\<close>: the \<^verbatim>\<open>n\<close> channels written by the first loop,
      then the zeros of the second\<close>
  "sampleBilinear img loc =
     (let w = int (width img); h = int (height img); n = numChannels img;
          col0 = toInt (of_int \<lfloor>vx loc\<rfloor>); col1 = wrap32 (col0 + 1);
          row0 = toInt (of_int \<lfloor>vy loc\<rfloor>); row1 = wrap32 (row0 + 1);
          (pc0, pc1) = clampLattice col0 w;
          (pr0, pr1) = clampLattice row0 h;
          pix00 = pixel img pr0 pc0;
          pix01 = pixel img pr0 pc1;
          pix10 = pixel img pr1 pc0;
          pix11 = pixel img pr1 pc1
      in andThen (mapM (sampleChannel img loc col0 col1 row0 row1 pix00 pix01 pix10 pix11) [0..<n])
           (\<lambda>cs. Inr (cs @ replicate (4 - n) 0)))"

definition sampledByte :: "image \<Rightarrow> vec2 \<Rightarrow> nat \<Rightarrow> byte" where
  \<comment> \<open>what the channel loop of \<^verbatim>\<open>sampleBilinear\<close> writes for a channel once its four reads
      have succeeded\<close>
  "sampledByte img loc channel =
     (let w = int (width img); h = int (height img);
          col0 = toInt (of_int \<lfloor>vx loc\<rfloor>); col1 = wrap32 (col0 + 1);
          row0 = toInt (of_int \<lfloor>vy loc\<rfloor>); row1 = wrap32 (row0 + 1);
          pc0 = fst (clampLattice col0 w); pc1 = snd (clampLattice col0 w);
          pr0 = fst (clampLattice row0 h); pr1 = snd (clampLattice row0 h);
          b00 = buf img ! nat (pixel img pr0 pc0 + int channel);
          b01 = buf img ! nat (pixel img pr0 pc1 + int channel);
          b10 = buf img ! nat (pixel img pr1 pc0 + int channel);
          b11 = buf img ! nat (pixel img pr1 pc1 + int channel);
          res = 0;
          res = fl (res + fl (fl (real (unat b00) * fl (of_int col1 - vx loc)) * fl (of_int row1 - vy loc)));
          res = fl (res + fl (fl (real (unat b01) * fl (of_int col1 - vx loc)) * fl (vy loc - of_int row0)));
          res = fl (res + fl (fl (real (unat b10) * fl (vx loc - of_int col0)) * fl (of_int row1 - vy loc)));
          res = fl (res + fl (fl (real (unat b11) * fl (vx loc - of_int col0)) * fl (vy loc - of_int row0)))
      in word_of_int (min 255 (max 0 (toInt (of_int \<lfloor>res\<rfloor>)))))"

section \<open>distortImage, blendImages, morphImages\<close>

definition weight :: "real \<Rightarrow> real \<Rightarrow> real \<Rightarrow> lineSegment \<Rightarrow> vec2 \<Rightarrow> real \<Rightarrow> real \<Rightarrow> error + real" where
  \<comment> \<open>\<^verbatim>\<open>pow(pow(seg.length(), p)/(a + seg.segmentDistance(curr, u, v)), b)\<close>\<close>
  "weight a b p seg cur u v =
     andThen (pow (seg_length seg) p) (\<lambda>lp.
     andThen (fdiv lp (fl (a + segmentDistance seg cur u v))) (\<lambda>r. pow r b))"

definition featureTerm ::
  "real \<Rightarrow> real \<Rightarrow> real \<Rightarrow> real \<Rightarrow> vec2 \<Rightarrow> lineSegment \<Rightarrow> lineSegment \<Rightarrow> error + (vec2 \<times> real)" where
  \<comment> \<open>the body of the loop over the features, up to \<^verbatim>\<open>wt\<close>: the displacement and its weight\<close>
  "featureTerm t a b p cur start_ln seg_end_i =
     (let end_ln = lerp start_ln seg_end_i t in
      andThen (lineParameter end_ln cur) (\<lambda>u.
      andThen (signedLineDistance end_ln cur) (\<lambda>v.
      andThen (Vec2_div (perp start_ln) (seg_length start_ln)) (\<lambda>q.
        let interpolated =
              Vec2_add (Vec2_add (start start_ln) (Vec2_scale (direction start_ln) u))
                       (Vec2_scale q v);
            dis = Vec2_sub interpolated cur
        in andThen (weight a b p start_ln cur u v) (\<lambda>wt. Inr (dis, wt))))))"

fun featureLoop ::
  "real \<Rightarrow> real \<Rightarrow> real \<Rightarrow> real \<Rightarrow> vec2 \<Rightarrow> lineSegment list \<Rightarrow> lineSegment list \<Rightarrow> vec2 \<times> real
     \<Rightarrow> error + (vec2 \<times> real)" where
  "featureLoop t a b p cur [] es acc = Inr acc"
| "featureLoop t a b p cur (s # ss) [] acc = Inl OutOfBounds"
| "featureLoop t a b p cur (s # ss) (e # es) (dissum, wtsum) =
     andThen (featureTerm t a b p cur s e) (\<lambda>(dis, wt).
       featureLoop t a b p cur ss es (Vec2_add dissum (Vec2_scale dis wt), fl (wtsum + wt)))"

definition sourceLocation ::
  "lineSegment list \<Rightarrow> lineSegment list \<Rightarrow> real \<Rightarrow> real \<Rightarrow> real \<Rightarrow> real \<Rightarrow> vec2 \<Rightarrow> error + vec2" where
  \<comment> \<open>one pixel of \<^verbatim>\<open>distortImage\<close>, down to \<^verbatim>\<open>interpolated = curr + (dissum/wtsum)\<close>\<close>
  "sourceLocation seg_start seg_end t a b p cur =
     andThen (featureLoop t a b p cur seg_start seg_end (Vec2 0 0, 0)) (\<lambda>(dissum, wtsum).
     andThen (Vec2_div dissum wtsum) (\<lambda>d. Inr (Vec2_add cur d)))"

definition distortImage ::
  "image \<Rightarrow> lineSegment list \<Rightarrow> lineSegment list \<Rightarrow> real \<Rightarrow> real \<Rightarrow> real \<Rightarrow> real \<Rightarrow> error + image" where
  "distortImage img seg_start seg_end t a b p =
     (if length seg_start \<noteq> length seg_end then Inl AssertionFailed
      else
        let w = width img; h = height img; n = numChannels img in
        andThen (forPixels h w (\<lambda>row col.
                   andThen (sourceLocation seg_start seg_end t a b p (Vec2 (real col) (real row)))
                     (\<lambda>interpolated.
                   andThen (sampleBilinear img interpolated) (\<lambda>sample. Inr (take n sample)))))
          (\<lambda>bytes. Inr \<lparr>width = w, height = h, numChannels = n, buf = bytes\<rparr>))"

definition blendChannel :: "image \<Rightarrow> image \<Rightarrow> real \<Rightarrow> int \<Rightarrow> int \<Rightarrow> nat \<Rightarrow> error + byte" where
  \<comment> \<open>the body of the channel loop of \<^verbatim>\<open>blendImages\<close>\<close>
  "blendChannel img1 img2 t pix_1 pix_2 channel =
     andThen (readByte img1 (pix_1 + int channel)) (\<lambda>b1.
     andThen (readByte img2 (pix_2 + int channel)) (\<lambda>b2.
       let z = fl (fl (real (unat b1) * t) + fl (real (unat b2) * fl (1 - t)))
       in narrow (of_int \<lfloor>z\<rfloor>)))"

definition blendImages :: "image \<Rightarrow> image \<Rightarrow> real \<Rightarrow> error + image" where
  "blendImages img1 img2 t =
     (if \<not> hasSameDimsAs img1 img2 then Inl AssertionFailed
      else
        let w = width img1; h = height img1; n = numChannels img1 in
        andThen (forPixels h w (\<lambda>row col.
                   mapM (blendChannel img1 img2 t (pixel img1 (int row) (int col))
                           (pixel img2 (int row) (int col))) [0..<n]))
          (\<lambda>bytes. Inr \<lparr>width = w, height = h, numChannels = n, buf = bytes\<rparr>))"

definition morphImages ::
  "image \<Rightarrow> image \<Rightarrow> lineSegment list \<Rightarrow> lineSegment list \<Rightarrow> real \<Rightarrow> real \<Rightarrow> real \<Rightarrow> real
     \<Rightarrow> error + image" where
  "morphImages img1 img2 seg1 seg2 t a b p =
     (if \<not> hasSameDimsAs img1 img2 then Inl AssertionFailed
      else
        andThen (distortImage img1 seg1 seg2 t a b p) (\<lambda>distorted1.
        andThen (distortImage img2 seg2 seg1 (fl (1 - t)) a b p) (\<lambda>distorted2.
          blendImages distorted1 distorted2 (fl (1 - t)))))"

section \<open>The specification's reading of the sampler's lattice\<close>


section \<open>Example inputs\<close>

definition img22 :: image where
  \<comment> \<open>the 2 by 2 single-channel image with rows 10 20 and 30 40\<close>
  "img22 = \<lparr>width = 2, height = 2, numChannels = 1, buf = [10, 20, 30, 40]\<rparr>"

definition img11 :: image where
  \<comment> \<open>one RGBA pixel\<close>
  "img11 = \<lparr>width = 1, height = 1, numChannels = 4, buf = [100, 100, 100, 255]\<rparr>"

definition img11b :: image where
  \<comment> \<open>a second RGBA pixel\<close>
  "img11b = \<lparr>width = 1, height = 1, numChannels = 4, buf = [200, 200, 200, 255]\<rparr>"

definition seg01 :: lineSegment where
  \<comment> \<open>the unit segment from the origin along the x axis\<close>
  "seg01 = LineSegment (Vec2 0 0) (Vec2 1 0)"

definition segDegenerate :: lineSegment where
  \<comment> \<open>a zero-length segment\<close>
  "segDegenerate = LineSegment (Vec2 1 1) (Vec2 1 1)"

definition seg47 :: lineSegment where
  \<comment> \<open>an end feature for \<open>seg01\<close>\<close>
  "seg47 = LineSegment (Vec2 4 0) (Vec2 7 0)"

definition seg24 :: lineSegment where
  \<comment> \<open>the segment half way between \<open>seg01\<close> and \<open>seg47\<close>\<close>
  "seg24 = LineSegment (Vec2 2 0) (Vec2 4 0)"

definition img31 :: image where
  \<comment> \<open>the 3 by 1 single-channel image with the row 10 20 30\<close>
  "img31 = \<lparr>width = 3, height = 1, numChannels = 1, buf = [10, 20, 30]\<rparr>"

definition img29 :: image where
  \<comment> \<open>one single-channel pixel\<close>
  "img29 = \<lparr>width = 1, height = 1, numChannels = 1, buf = [29]\<rparr>"

definition tBlend :: real where
  \<comment> \<open>the double nearest to \<open>3/7\<close>\<close>
  "tBlend = 7720456504063707 / 18014398509481984"



section \<open>Sequencing and the pixel scan\<close>

lemma andThen_Inr_iff:
  "andThen m f = Inr y \<longleftrightarrow> (\<exists>x. m = Inr x \<and> f x = Inr y)"
  by (cases m) auto

lemma mapM_Inr:
  "(\<And>x. x \<in> set xs \<Longrightarrow> f x = Inr (g x)) \<Longrightarrow> mapM f xs = Inr (map g xs)"
  by (induction xs) simp_all

lemma mapM_all_Inl:
  "xs \<noteq> [] \<Longrightarrow> (\<And>x. x \<in> set xs \<Longrightarrow> f x = Inl e) \<Longrightarrow> mapM f xs = Inl e"
  by (cases xs) simp_all

lemma forPixels_Inr:
  assumes "\<And>row col. row < h \<Longrightarrow> col < w \<Longrightarrow> f row col = Inr (g row col)"
  shows "forPixels h w f = Inr (concat (map (\<lambda>row. concat (map (g row) [0..<w])) [0..<h]))"
proof -
  have inner: "mapM (\<lambda>col. f row col) [0..<w] = Inr (map (g row) [0..<w])" if "row < h" for row
    using that assms by (intro mapM_Inr) simp
  have "mapM (\<lambda>row. andThen (mapM (\<lambda>col. f row col) [0..<w]) (\<lambda>ps. Inr (concat ps))) [0..<h]
        = Inr (map (\<lambda>row. concat (map (g row) [0..<w])) [0..<h])"
    by (intro mapM_Inr) (simp add: inner)
  then show ?thesis by (simp add: forPixels_def)
qed

lemma forPixels_all_Inl:
  assumes "0 < h" "0 < w" "\<And>row col. row < h \<Longrightarrow> col < w \<Longrightarrow> f row col = Inl e"
  shows "forPixels h w f = Inl e"
proof -
  have inner: "mapM (\<lambda>col. f row col) [0..<w] = Inl e" if "row < h" for row
    using that assms by (intro mapM_all_Inl) simp_all
  have "mapM (\<lambda>row. andThen (mapM (\<lambda>col. f row col) [0..<w]) (\<lambda>ps. Inr (concat ps))) [0..<h]
        = Inl e"
    using assms(1) by (intro mapM_all_Inl) (simp_all add: inner)
  then show ?thesis by (simp add: forPixels_def)
qed

section \<open>Reads of the sampler stay inside the buffer\<close>

lemma clampLattice_range:
  assumes "1 \<le> w"
  shows "0 \<le> fst (clampLattice c0 w)" "fst (clampLattice c0 w) \<le> w - 1"
        "0 \<le> snd (clampLattice c0 w)" "snd (clampLattice c0 w) \<le> w - 1"
  using assms by (simp_all add: clampLattice_def Let_def)

lemma pixel_offset_in_bounds:
  assumes wf: "wf_image img"
    and r: "0 \<le> row" "row \<le> int (height img) - 1"
    and c: "0 \<le> col" "col \<le> int (width img) - 1"
    and ch: "channel < numChannels img"
  shows "0 \<le> pixel img row col + int channel"
    and "pixel img row col + int channel < int (length (buf img))"
proof -
  let ?w = "int (width img)" and ?h = "int (height img)" and ?n = "int (numChannels img)"
  have nonneg: "0 \<le> row * ?w + col" using r c by simp
  then show "0 \<le> pixel img row col + int channel"
    by (simp add: pixel_def)
  have "(row + 1) * ?w \<le> ?h * ?w"
    using r by (intro mult_right_mono) simp_all
  then have "row * ?w + col + 1 \<le> ?h * ?w"
    using c by (simp add: algebra_simps)
  then have "(row * ?w + col + 1) * ?n \<le> (?h * ?w) * ?n"
    by (intro mult_right_mono) simp_all
  then have "(row * ?w + col) * ?n + ?n \<le> ?h * ?w * ?n"
    by (simp add: algebra_simps)
  moreover have "int channel < ?n" using ch by simp
  moreover have "int (length (buf img)) = ?h * ?w * ?n"
    using wf by (simp add: wf_image_def mult.commute)
  ultimately show "pixel img row col + int channel < int (length (buf img))"
    by (simp add: pixel_def)
qed

lemma readByte_pixel:
  assumes "wf_image img" "0 \<le> row" "row \<le> int (height img) - 1"
    "0 \<le> col" "col \<le> int (width img) - 1" "channel < numChannels img"
  shows "readByte img (pixel img row col + int channel)
           = Inr (buf img ! nat (pixel img row col + int channel))"
  using pixel_offset_in_bounds [OF assms] by (simp add: readByte_def)

section \<open>Rounding to a double\<close>

lemma round_even_of_int: "round_even (of_int n) = n"
  by (simp add: round_even_def)

lemma round_even_error: "\<bar>of_int (round_even m) - m\<bar> \<le> 1 / 2"
  by (auto simp: round_even_def Let_def)

lemma two_powr_int: "(2::real) powr (of_int k) = 2 powi k"
  by (simp add: powr_real_of_int')

lemma two_powi_floor_log:
  assumes "x \<noteq> 0"
  shows "2 powi \<lfloor>log 2 \<bar>x\<bar>\<rfloor> \<le> \<bar>x\<bar>" and "\<bar>x\<bar> < 2 powi (\<lfloor>log 2 \<bar>x\<bar>\<rfloor> + 1)"
proof -
  have pos: "0 < \<bar>x\<bar>" using assms by simp
  have "(2::real) powr (of_int \<lfloor>log 2 \<bar>x\<bar>\<rfloor>) \<le> \<bar>x\<bar>
        \<and> \<bar>x\<bar> < 2 powr (of_int \<lfloor>log 2 \<bar>x\<bar>\<rfloor> + 1)"
    using floor_log_eq_powr_iff [OF pos, of 2 "\<lfloor>log 2 \<bar>x\<bar>\<rfloor>"] by simp
  moreover have "(2::real) powr (of_int \<lfloor>log 2 \<bar>x\<bar>\<rfloor> + 1) = 2 powi (\<lfloor>log 2 \<bar>x\<bar>\<rfloor> + 1)"
    using two_powr_int [of "\<lfloor>log 2 \<bar>x\<bar>\<rfloor> + 1"] by simp
  ultimately show "2 powi \<lfloor>log 2 \<bar>x\<bar>\<rfloor> \<le> \<bar>x\<bar>" and "\<bar>x\<bar> < 2 powi (\<lfloor>log 2 \<bar>x\<bar>\<rfloor> + 1)"
    by (simp_all add: two_powr_int)
qed

lemma floor_log2_eq:
  assumes "2 powi k \<le> \<bar>x\<bar>" "\<bar>x\<bar> < 2 powi (k + 1)"
  shows "\<lfloor>log 2 \<bar>x\<bar>\<rfloor> = k"
proof -
  have "0 < (2::real) powi k" by simp
  then have pos: "0 < \<bar>x\<bar>" using assms(1) by linarith
  have "(2::real) powr (of_int k + 1) = 2 powi (k + 1)"
    using two_powr_int [of "k + 1"] by simp
  then have "(2::real) powr (of_int k) \<le> \<bar>x\<bar> \<and> \<bar>x\<bar> < 2 powr (of_int k + 1)"
    using assms by (simp add: two_powr_int)
  then show ?thesis
    using floor_log_eq_powr_iff [OF pos, of 2 k] by simp
qed

lemma fl_zero [simp]: "fl 0 = 0"
  by (simp add: fl_def)

lemma fl_eval:
  assumes "2 powi k \<le> \<bar>x\<bar>" "\<bar>x\<bar> < 2 powi (k + 1)"
  shows "fl x = of_int (round_even (x / 2 powi (k - 52))) * 2 powi (k - 52)"
proof -
  have "0 < (2::real) powi k" by simp
  then have "0 < \<bar>x\<bar>" using assms(1) by linarith
  then have "x \<noteq> 0" by auto
  then show ?thesis
    by (simp add: fl_def Let_def floor_log2_eq [OF assms])
qed

lemma fl_error: "\<bar>fl x - x\<bar> \<le> \<bar>x\<bar> / 2 ^ 53"
proof (cases "x = 0")
  case True
  then show ?thesis by simp
next
  case False
  define k where "k = \<lfloor>log 2 \<bar>x\<bar>\<rfloor>"
  define s :: real where "s = 2 powi (k - 52)"
  have spos: "0 < s" by (simp add: s_def)
  have lo: "2 powi k \<le> \<bar>x\<bar>" using two_powi_floor_log(1) [OF False] by (simp add: k_def)
  have sk: "s = 2 powi k / 2 ^ 52"
    by (simp add: s_def power_int_diff)
  have "fl x = of_int (round_even (x / s)) * s"
    using False by (simp add: fl_def Let_def k_def s_def)
  then have "fl x - x = (of_int (round_even (x / s)) - x / s) * s"
    using spos by (simp add: field_simps)
  then have "\<bar>fl x - x\<bar> = \<bar>of_int (round_even (x / s)) - x / s\<bar> * s"
    using spos by (simp add: abs_mult)
  also have "\<dots> \<le> (1 / 2) * s"
    using round_even_error [of "x / s"] spos by (intro mult_right_mono) simp_all
  also have "\<dots> = 2 powi k / 2 ^ 53" by (simp add: sk)
  also have "\<dots> \<le> \<bar>x\<bar> / 2 ^ 53" using lo by (simp add: divide_right_mono)
  finally show ?thesis .
qed

lemma fl_nonneg: "0 \<le> x \<Longrightarrow> 0 \<le> fl x"
proof -
  assume x: "0 \<le> x"
  have "x / 2 ^ 53 \<le> x" using x by (simp add: field_simps)
  then show ?thesis using fl_error [of x] x by linarith
qed

lemma fl_exact:
  assumes "\<bar>m\<bar> < 2 ^ 53"
  shows "fl (of_int m * 2 powi e) = of_int m * 2 powi e"
proof (cases "m = 0")
  case True
  then show ?thesis by simp
next
  case False
  define x :: real where "x = of_int m * 2 powi e"
  define k where "k = \<lfloor>log 2 \<bar>x\<bar>\<rfloor>"
  have x0: "x \<noteq> 0" using False by (simp add: x_def)
  have "\<bar>x\<bar> = of_int \<bar>m\<bar> * 2 powi e" by (simp add: x_def abs_mult)
  also have "\<dots> < 2 ^ 53 * 2 powi e"
  proof -
    have "real_of_int \<bar>m\<bar> < 2 ^ 53" using assms by (metis of_int_less_numeral_power_cancel_iff)
    then show ?thesis by (intro mult_strict_right_mono) simp_all
  qed
  also have "\<dots> = 2 powi (53 + e)" by (simp add: power_int_add)
  finally have up: "\<bar>x\<bar> < 2 powi (53 + e)" .
  have "2 powi k \<le> \<bar>x\<bar>" using two_powi_floor_log(1) [OF x0] by (simp add: k_def)
  with up have "(2::real) powi k < 2 powi (53 + e)" by linarith
  then have "(2::real) powr (of_int k) < 2 powr (of_int (53 + e))" by (simp only: two_powr_int)
  then have kle: "k \<le> 52 + e" by simp
  define j where "j = nat (e - (k - 52))"
  have je: "int j = e - (k - 52)" using kle by (simp add: j_def)
  have "e = int j + (k - 52)" using je by simp
  then have "(2::real) powi e = 2 ^ j * 2 powi (k - 52)"
    by (simp add: power_int_add)
  then have xs: "x = of_int (m * 2 ^ j) * 2 powi (k - 52)"
    by (simp add: x_def)
  then have "x / 2 powi (k - 52) = of_int (m * 2 ^ j)" by simp
  then have "round_even (x / 2 powi (k - 52)) = m * 2 ^ j"
    by (simp only: round_even_of_int)
  then have "fl x = of_int (m * 2 ^ j) * 2 powi (k - 52)"
    using x0 by (simp add: fl_def Let_def k_def)
  with xs have "fl x = x" by (simp only:)
  then show ?thesis by (simp only: x_def)
qed

lemma fl_of_int: "\<bar>m\<bar> < 2 ^ 53 \<Longrightarrow> fl (of_int m) = of_int m"
  using fl_exact [of m 0] by simp

lemma fl_div_pow2: "\<bar>m\<bar> < 2 ^ 53 \<Longrightarrow> fl (of_int m / 2 ^ j) = of_int m / 2 ^ j"
  using fl_exact [of m "- int j"] by (simp add: power_int_minus field_simps)

lemma fl_one [simp]: "fl 1 = 1"
  using fl_of_int [of 1] by simp

lemma fl_neg_one [simp]: "fl (- 1) = - 1"
  using fl_of_int [of "- 1"] by simp

lemma fl_numeral: "(numeral n :: int) < 2 ^ 53 \<Longrightarrow> fl (numeral n) = numeral n"
  using fl_of_int [of "numeral n"] by simp

lemma fl_neg_numeral: "(numeral n :: int) < 2 ^ 53 \<Longrightarrow> fl (- numeral n) = - numeral n"
  using fl_of_int [of "- numeral n"] by simp

lemma fl_numeral_half: "(numeral n :: int) < 2 ^ 53 \<Longrightarrow> fl (numeral n / 2) = numeral n / 2"
  using fl_div_pow2 [of "numeral n" 1] by simp

lemma fl_half [simp]: "fl (1 / 2) = 1 / 2"
  using fl_div_pow2 [of 1 1] by simp

lemma round_even_frac:
  assumes "0 < b"
  shows "round_even (of_int a / of_int b) =
     (let f = a div b; r = a mod b
      in if 2 * r < b then f else if b < 2 * r then f + 1 else if even f then f else f + 1)"
proof -
  have fl: "\<lfloor>real_of_int a / real_of_int b\<rfloor> = a div b"
    by (simp add: floor_divide_of_int_eq)
  have "real_of_int a = real_of_int (a div b) * real_of_int b + real_of_int (a mod b)"
    by (metis of_int_add of_int_mult div_mult_mod_eq)
  then have d: "real_of_int a / real_of_int b - of_int (a div b) = of_int (a mod b) / of_int b"
    using assms by (simp add: field_simps)
  have c1: "(of_int (a mod b) / real_of_int b < 1 / 2) = (2 * (a mod b) < b)"
  proof -
    have "(of_int (a mod b) / real_of_int b < 1 / 2) = (real_of_int (2 * (a mod b)) < real_of_int b)"
      using assms by (simp add: field_simps)
    then show ?thesis by (simp only: of_int_less_iff)
  qed
  have c2: "(1 / 2 < of_int (a mod b) / real_of_int b) = (b < 2 * (a mod b))"
  proof -
    have "(1 / 2 < of_int (a mod b) / real_of_int b) = (real_of_int b < real_of_int (2 * (a mod b)))"
      using assms by (simp add: field_simps)
    then show ?thesis by (simp only: of_int_less_iff)
  qed
  show ?thesis
    by (simp only: round_even_def Let_def fl d c1 c2)
qed

lemma round_even_numeral:
  "round_even (numeral a / numeral b) =
     (let f = numeral a div numeral b; r = numeral a mod numeral b :: int
      in if 2 * r < numeral b then f else if numeral b < 2 * r then f + 1
         else if even f then f else f + 1)"
  using round_even_frac [of "numeral b" "numeral a"] by simp

lemma fl_at:
  assumes "2 powi k \<le> \<bar>x\<bar>" "\<bar>x\<bar> < 2 powi (k + 1)"
    and "x / 2 powi (k - 52) = q" and "round_even q = r"
  shows "fl x = of_int r * 2 powi (k - 52)"
  using fl_eval [OF assms(1,2)] assms(3,4) by simp

lemma fl_nat: "n < 2 ^ 53 \<Longrightarrow> fl (real n) = real n"
  using fl_of_int [of "int n"] by simp

lemma toInt_of_int: "- 2147483648 \<le> k \<Longrightarrow> k \<le> 2147483647 \<Longrightarrow> toInt (of_int k) = k"
  by (simp add: toInt_def Let_def)

lemma wrap32_id: "- 2147483648 \<le> k \<Longrightarrow> k \<le> 2147483647 \<Longrightarrow> wrap32 k = k"
  by (simp add: wrap32_def)

lemma fl_eq_0_iff [simp]: "fl x = 0 \<longleftrightarrow> x = 0"
proof
  assume z: "fl x = 0"
  have "\<bar>x\<bar> / 2 ^ 53 \<le> \<bar>x\<bar> / 2" by (intro divide_left_mono) simp_all
  then have "\<bar>x\<bar> \<le> \<bar>x\<bar> / 2" using fl_error [of x] z by simp
  then show "x = 0" by simp
qed simp

lemma fl_pos_iff [simp]: "0 < fl x \<longleftrightarrow> 0 < x"
proof
  assume p: "0 < fl x"
  show "0 < x"
  proof (rule ccontr)
    assume "\<not> 0 < x"
    then have "0 \<le> - x" by simp
    have "\<bar>x\<bar> / 2 ^ 53 \<le> \<bar>x\<bar> / 2" by (intro divide_left_mono) simp_all
    then have "fl x \<le> x + \<bar>x\<bar> / 2" using fl_error [of x] by linarith
    also have "\<dots> \<le> 0" using \<open>\<not> 0 < x\<close> by simp
    finally show False using p by simp
  qed
next
  assume "0 < x"
  then have "0 \<le> fl x" by (intro fl_nonneg) simp
  moreover have "fl x \<noteq> 0" using \<open>0 < x\<close> by simp
  ultimately show "0 < fl x" by (metis order_le_less)
qed

section \<open>The channels of a sample\<close>

declare of_nat_unat [simp del]

lemma sampleBilinear_Inr:
  assumes wf: "wf_image img" and w: "1 \<le> width img" and h: "1 \<le> height img"
  shows "sampleBilinear img loc
           = Inr (map (sampledByte img loc) [0..<numChannels img]
                  @ replicate (4 - numChannels img) 0)"
proof -
  let ?w = "int (width img)" and ?h = "int (height img)"
  let ?col0 = "toInt (of_int \<lfloor>vx loc\<rfloor>)" and ?row0 = "toInt (of_int \<lfloor>vy loc\<rfloor>)"
  let ?c = "clampLattice ?col0 ?w" and ?r = "clampLattice ?row0 ?h"
  have w1: "1 \<le> ?w" and h1: "1 \<le> ?h" using w h by simp_all
  note cr = clampLattice_range [OF w1, of ?col0]
  note rr = clampLattice_range [OF h1, of ?row0]
  have rd: "readByte img (pixel img pr pc + int channel)
              = Inr (buf img ! nat (pixel img pr pc + int channel))"
    if "pr \<in> {fst ?r, snd ?r}" "pc \<in> {fst ?c, snd ?c}" "channel < numChannels img"
    for pr pc channel
    using that cr rr by (intro readByte_pixel [OF wf]) auto
  have "mapM (sampleChannel img loc ?col0 (wrap32 (?col0 + 1)) ?row0 (wrap32 (?row0 + 1))
                (pixel img (fst ?r) (fst ?c)) (pixel img (fst ?r) (snd ?c))
                (pixel img (snd ?r) (fst ?c)) (pixel img (snd ?r) (snd ?c)))
          [0..<numChannels img]
        = Inr (map (sampledByte img loc) [0..<numChannels img])"
    by (intro mapM_Inr) (simp add: sampleChannel_def sampledByte_def rd Let_def)
  then show ?thesis
    by (simp add: sampleBilinear_def Let_def case_prod_beta)
qed

lemma replicate_3: "replicate 3 x = [x, x, x]"
  by (simp add: numeral_3_eq_3)

section \<open>Feature segments\<close>

text \<open>
  Claim C10, about \<open>segmentDistance\<close>: the Euclidean distance from \<open>p\<close> to the start
  endpoint when \<open>u < 0\<close> and also when \<open>u > 1\<close>, and \<open>\<bar>v\<bar>\<close> otherwise. The last part
  is what the header documents (``the unsigned distance from \<open>p\<close> to the segment'') and
  not what it computes: \<^verbatim>\<open>abs(v)\<close> there is \<^verbatim>\<open>int abs(int)\<close>, which truncates \<open>v\<close>. For
  the segment from \<open>(0, 0)\<close> to \<open>(1, 0)\<close> and the point \<open>(1/2, 1/2)\<close>, where \<open>u = 1/2\<close>
  and \<open>v = 1/2\<close>, the function returns 0 and not \<open>1/2\<close>; for the point \<open>(1/2, 5/2)\<close>,
  where \<open>v = 5/2\<close>, it returns 2.
\<close>

theorem segmentDistance_truncates_at_input:
  "length2 seg01 \<noteq> 0
   \<and> lineParameter seg01 (Vec2 (1 / 2) (1 / 2)) = Inr (1 / 2)
   \<and> signedLineDistance seg01 (Vec2 (1 / 2) (1 / 2)) = Inr (1 / 2)
   \<and> segmentDistance seg01 (Vec2 (1 / 2) (1 / 2)) (1 / 2) (1 / 2) = 0
   \<and> \<bar>1 / 2 :: real\<bar> = 1 / 2
   \<and> lineParameter seg01 (Vec2 (1 / 2) (5 / 2)) = Inr (1 / 2)
   \<and> signedLineDistance seg01 (Vec2 (1 / 2) (5 / 2)) = Inr (5 / 2)
   \<and> segmentDistance seg01 (Vec2 (1 / 2) (5 / 2)) (1 / 2) (5 / 2) = 2"
  by (simp add: seg01_def length2_def lineParameter_def signedLineDistance_def seg_length_def
      perp_def direction_def Vec2_perp_def Vec2_dot_def Vec2_sub_def Vec2_length2_def fdiv_def
      segmentDistance_def toInt_def wrap32_def fl_numeral_half)

section \<open>Samples at lattice points\<close>



lemma byte_less_256: "unat (b :: byte) < 256"
proof -
  have "unat b < 2 ^ LENGTH(8)" by (rule unsigned_less)
  then show ?thesis by simp
qed

lemma fl_byte: "fl (real (unat (b :: byte))) = real (unat b)"
  using byte_less_256 [of b] by (intro fl_nat) simp

lemma byte_clamp_roundtrip:
  "word_of_int (min 255 (max 0 (toInt (of_int \<lfloor>real (unat b)\<rfloor>)))) = (b :: byte)"
proof -
  have lt: "unat b < 256" by (rule byte_less_256)
  then have m: "min 255 (max 0 (int (unat b))) = int (unat b)" by linarith
  have f: "\<lfloor>real (unat b)\<rfloor> = int (unat b)" by (rule floor_of_nat)
  have "toInt (of_int (int (unat b))) = int (unat b)"
    using lt by (intro toInt_of_int) simp_all
  then have "word_of_int (min 255 (max 0 (toInt (of_int \<lfloor>real (unat b)\<rfloor>))))
               = (word_of_int (int (unat b)) :: byte)"
    using m f by (simp only:)
  also have "\<dots> = b" by (simp add: of_nat_unat)
  finally show ?thesis .
qed

lemma clampLattice_fst: "fst (clampLattice c0 w) = max 0 (min c0 (w - 1))"
  by (simp add: clampLattice_def Let_def)

lemma sample_at_corner:
  "fl (fl (fl (fl (0 + fl (fl (real (unat (b00 :: byte)) * fl 1) * fl 1))
                + fl (fl (real (unat (b01 :: byte)) * fl 1) * fl 0))
            + fl (fl (real (unat (b10 :: byte)) * fl 0) * fl 1))
        + fl (fl (real (unat (b11 :: byte)) * fl 0) * fl 0))
     = real (unat b00)"
  by (simp add: fl_byte)

lemma sampledByte_integer_any:
  assumes "- 2147483648 \<le> x" "x \<le> 2147483646" "- 2147483648 \<le> y" "y \<le> 2147483646"
  shows "sampledByte img (Vec2 (of_int x) (of_int y)) channel
     = buf img ! nat (pixel img (max 0 (min y (int (height img) - 1)))
                        (max 0 (min x (int (width img) - 1))) + int channel)"
proof -
  have cx: "toInt (of_int x) = x" and cy: "toInt (of_int y) = y"
    using assms by (simp_all add: toInt_of_int)
  have wx: "wrap32 (x + 1) = x + 1" and wy: "wrap32 (y + 1) = y + 1"
    using assms by (simp_all add: wrap32_id)
  have d: "real_of_int (x + 1) - of_int x = 1" "real_of_int (y + 1) - of_int y = 1"
    "real_of_int x - of_int x = 0" "real_of_int y - of_int y = 0"
    by simp_all
  have "sampledByte img (Vec2 (of_int x) (of_int y)) channel
          = word_of_int (min 255 (max 0 (toInt (of_int \<lfloor>real (unat (buf img !
              nat (pixel img (fst (clampLattice y (int (height img))))
                     (fst (clampLattice x (int (width img)))) + int channel)))\<rfloor>))))"
    by (simp only: sampledByte_def Let_def vec2.sel floor_of_int cx cy wx wy d sample_at_corner)
  then show ?thesis
    by (simp only: byte_clamp_roundtrip clampLattice_fst)
qed

lemma sampledByte_integer:
  assumes "wf_image img" "1 \<le> width img" "1 \<le> height img"
    "0 \<le> x" "x \<le> int (width img) - 1" "0 \<le> y" "y \<le> int (height img) - 1"
  shows "sampledByte img (Vec2 (of_int x) (of_int y)) channel
           = buf img ! nat (pixel img y x + int channel)"
proof -
  have "int (width img) \<le> 2147483647" "int (height img) \<le> 2147483647"
    using assms(1) by (simp_all add: wf_image_def)
  then have r: "- 2147483648 \<le> x" "x \<le> 2147483646" "- 2147483648 \<le> y" "y \<le> 2147483646"
    using assms by linarith+
  have m: "max 0 (min y (int (height img) - 1)) = y" "max 0 (min x (int (width img) - 1)) = x"
    using assms by linarith+
  show ?thesis
    by (simp only: sampledByte_integer_any [OF r] m)
qed

lemma sampleBilinear_pixel:
  assumes "wf_image img" "1 \<le> width img" "1 \<le> height img"
    "0 \<le> x" "x \<le> int (width img) - 1" "0 \<le> y" "y \<le> int (height img) - 1"
  shows "sampleBilinear img (Vec2 (of_int x) (of_int y))
           = Inr (map (\<lambda>channel. buf img ! nat (pixel img y x + int channel)) [0..<numChannels img]
                  @ replicate (4 - numChannels img) 0)"
  using assms by (simp add: sampleBilinear_Inr sampledByte_integer)

lemma upt_4: "[0..<4] = [0, 1, 2, 3]"
  by (simp add: upt_rec)

section \<open>The sampler\<close>

text \<open>
  Claim C5, as stated, fails in its last part. The claim: the sampler never reads outside
  the buffer, and a coordinate far out of range resolves to a clamped-border colour. On
  the 3 by 1 image with the pixels 10, 20, 30 the sample at \<open>(-1000.5, 1000.5)\<close> is 15.
  The sampled columns are 0 and 1, and 15 is the mean of the border pixel 10 and of its
  neighbour 20: it is the colour of no pixel of the image.
\<close>

theorem border_colour_counterexample:
  "wf_image img31 \<and> 1 \<le> width img31 \<and> 1 \<le> height img31
   \<and> clampLattice (toInt (of_int \<lfloor>- 2001 / 2 :: real\<rfloor>)) (int (width img31)) = (0, 1)
   \<and> clampLattice (toInt (of_int \<lfloor>2001 / 2 :: real\<rfloor>)) (int (height img31)) = (0, 0)
   \<and> sampleBilinear img31 (Vec2 (- 2001 / 2) (2001 / 2)) = Inr [15, 0, 0, 0]
   \<and> buf img31 = [10, 20, 30]"
  by (simp add: img31_def wf_image_def clampLattice_def pixel_def sampleBilinear_def
      sampleChannel_def readByte_def toInt_def wrap32_def Let_def replicate_3
      fl_numeral fl_numeral_half)

text \<open>
  Claim C5, amended. For a pixel buffer with \<open>w \<ge> 1\<close> and \<open>h \<ge> 1\<close>, whatever the lattice
  coordinates \<open>col0\<close> and \<open>row0\<close> that the conversion of the location yields, the four
  corners the sampler reads have \<open>0 \<le> row \<le> h - 1\<close> and \<open>0 \<le> col \<le> w - 1\<close>, every byte
  offset it reads lies inside the buffer, and so the sampler returns a colour (it never
  fails with an out-of-bounds read) at every location, however far out of range. That
  colour is a blend of the pixels at the clamped corners, which below 0 are the border
  and its neighbour. It is the colour of a border pixel at integer coordinates: for
  integers \<open>x\<close> and \<open>y\<close> from \<open>-2\<^sup>3\<^sup>1\<close> to \<open>2\<^sup>3\<^sup>1 - 2\<close> the sampler returns the pixel at the
  clamped row and column.
\<close>

theorem sampleBilinear_reads_in_bounds:
  assumes "wf_image img" and "1 \<le> width img" and "1 \<le> height img"
  shows "(\<forall>col0 row0 channel. channel < numChannels img \<longrightarrow>
            (\<forall>pr \<in> {fst (clampLattice row0 (int (height img))), snd (clampLattice row0 (int (height img)))}.
             \<forall>pc \<in> {fst (clampLattice col0 (int (width img))), snd (clampLattice col0 (int (width img)))}.
               0 \<le> pr \<and> pr \<le> int (height img) - 1 \<and> 0 \<le> pc \<and> pc \<le> int (width img) - 1
               \<and> 0 \<le> pixel img pr pc + int channel
               \<and> pixel img pr pc + int channel < int (length (buf img))))
         \<and> (\<exists>sampled_color. sampleBilinear img loc = Inr sampled_color)
         \<and> (\<forall>x y. - 2147483648 \<le> x \<and> x \<le> 2147483646 \<and> - 2147483648 \<le> y \<and> y \<le> 2147483646 \<longrightarrow>
                sampleBilinear img (Vec2 (of_int x) (of_int y))
                  = Inr (map (\<lambda>channel. buf img !
                               nat (pixel img (max 0 (min y (int (height img) - 1)))
                                      (max 0 (min x (int (width img) - 1))) + int channel))
                           [0..<numChannels img]
                         @ replicate (4 - numChannels img) 0))"
proof (intro conjI allI impI ballI)
  fix col0 row0 :: int and channel pr pc
  assume ch: "channel < numChannels img"
    and pr: "pr \<in> {fst (clampLattice row0 (int (height img))), snd (clampLattice row0 (int (height img)))}"
    and pc: "pc \<in> {fst (clampLattice col0 (int (width img))), snd (clampLattice col0 (int (width img)))}"
  have w1: "1 \<le> int (width img)" and h1: "1 \<le> int (height img)" using assms by simp_all
  show r0: "0 \<le> pr" and r1: "pr \<le> int (height img) - 1"
    using pr clampLattice_range [OF h1, of row0] by auto
  show c0: "0 \<le> pc" and c1: "pc \<le> int (width img) - 1"
    using pc clampLattice_range [OF w1, of col0] by auto
  show "0 \<le> pixel img pr pc + int channel"
    and "pixel img pr pc + int channel < int (length (buf img))"
    using pixel_offset_in_bounds [OF assms(1) r0 r1 c0 c1 ch] by simp_all
next
  show "\<exists>sampled_color. sampleBilinear img loc = Inr sampled_color"
    using sampleBilinear_Inr [OF assms] by simp
next
  fix x y :: int
  assume "- 2147483648 \<le> x \<and> x \<le> 2147483646 \<and> - 2147483648 \<le> y \<and> y \<le> 2147483646"
  then have r: "- 2147483648 \<le> x" "x \<le> 2147483646" "- 2147483648 \<le> y" "y \<le> 2147483646"
    by simp_all
  have "sampledByte img (Vec2 (of_int x) (of_int y))
          = (\<lambda>channel. buf img !
               nat (pixel img (max 0 (min y (int (height img) - 1)))
                      (max 0 (min x (int (width img) - 1))) + int channel))"
    by (rule ext) (rule sampledByte_integer_any [OF r])
  then show "sampleBilinear img (Vec2 (of_int x) (of_int y))
               = Inr (map (\<lambda>channel. buf img !
                            nat (pixel img (max 0 (min y (int (height img) - 1)))
                                   (max 0 (min x (int (width img) - 1))) + int channel))
                        [0..<numChannels img]
                      @ replicate (4 - numChannels img) 0)"
    by (simp only: sampleBilinear_Inr [OF assms])
qed

text \<open>
  At the location \<open>(-1000, 1000)\<close> of the 2 by 2 image the sampler reads column 0 and
  row 1 and returns the border pixel 30.
\<close>

theorem sampleBilinear_reads_in_bounds_witness:
  "wf_image img22 \<and> 1 \<le> width img22 \<and> 1 \<le> height img22
   \<and> fst (clampLattice (- 1000) (int (width img22))) = 0
   \<and> snd (clampLattice 1000 (int (height img22))) = 1
   \<and> pixel img22 1 0 + int 0 < int (length (buf img22))
   \<and> sampleBilinear img22 (Vec2 (- 1000) 1000) = Inr [30, 0, 0, 0]"
proof -
  have h: "wf_image img22" "1 \<le> width img22" "1 \<le> height img22"
    by (simp_all add: img22_def wf_image_def)
  note colour = sampleBilinear_reads_in_bounds [OF h, of "Vec2 0 0", THEN conjunct2,
      THEN conjunct2, rule_format, of "- 1000" 1000]
  have "sampleBilinear img22 (Vec2 (of_int (- 1000)) (of_int 1000))
          = Inr (map (\<lambda>channel. buf img22 !
                       nat (pixel img22 (max 0 (min 1000 (int (height img22) - 1)))
                              (max 0 (min (- 1000) (int (width img22) - 1))) + int channel))
                   [0..<numChannels img22]
                 @ replicate (4 - numChannels img22) 0)"
    by (rule colour) simp
  then have "sampleBilinear img22 (Vec2 (- 1000) 1000) = Inr [30, 0, 0, 0]"
    by (simp add: img22_def pixel_def replicate_3)
  moreover have "fst (clampLattice (- 1000) (int (width img22))) = 0"
    "snd (clampLattice 1000 (int (height img22))) = 1"
    "pixel img22 1 0 + int 0 < int (length (buf img22))"
    by (simp_all add: img22_def clampLattice_def pixel_def)
  ultimately show ?thesis using h by simp
qed




text \<open>
  Claim C9. For a pixel buffer with \<open>w \<ge> 1\<close>, \<open>h \<ge> 1\<close> and integers \<open>0 \<le> x \<le> w - 1\<close>,
  \<open>0 \<le> y \<le> h - 1\<close>, the sampler at \<open>(x, y)\<close> returns the stored bytes of pixel
  \<open>(y, x)\<close> in the first \<open>c\<close> slots and 0 in the slots from \<open>c\<close> up to 4.
\<close>

theorem sampleBilinear_integer_coordinates:
  assumes "wf_image img" and "1 \<le> width img" and "1 \<le> height img"
    and "0 \<le> x" and "x \<le> int (width img) - 1"
    and "0 \<le> y" and "y \<le> int (height img) - 1"
  shows "sampleBilinear img (Vec2 (of_int x) (of_int y))
           = Inr (map (\<lambda>channel. buf img ! nat (pixel img y x + int channel)) [0..<numChannels img]
                  @ replicate (4 - numChannels img) 0)"
  using assms by (simp add: sampleBilinear_Inr sampledByte_integer)

text \<open>The pixel at column 1 of row 0 of the 2 by 2 image is 20.\<close>

theorem sampleBilinear_integer_coordinates_witness:
  "wf_image img22 \<and> 1 \<le> width img22 \<and> 1 \<le> height img22
   \<and> (0 :: int) \<le> 1 \<and> 1 \<le> int (width img22) - 1 \<and> 1 \<le> int (height img22) - 1
   \<and> sampleBilinear img22 (Vec2 (of_int 1) (of_int 0)) = Inr [20, 0, 0, 0]"
  using sampleBilinear_integer_coordinates [of img22 1 0]
  by (simp add: img22_def wf_image_def pixel_def replicate_3)

section \<open>The row-major scan and the bytes of a blend\<close>

lemma concat_uniform_length:
  "(\<And>x. x \<in> set xs \<Longrightarrow> length (f x) = m) \<Longrightarrow> length (concat (map f xs)) = length xs * m"
  by (induction xs) simp_all

lemma concat_uniform_nth:
  "(\<And>x. x \<in> set xs \<Longrightarrow> length (f x) = m) \<Longrightarrow> i < length xs \<Longrightarrow> j < m
     \<Longrightarrow> concat (map f xs) ! (i * m + j) = f (xs ! i) ! j"
proof (induction xs arbitrary: i)
  case Nil
  then show ?case by simp
next
  case (Cons x xs)
  show ?case
  proof (cases i)
    case 0
    with Cons.prems show ?thesis by (simp add: nth_append)
  next
    case (Suc k)
    have len: "length (f x) = m" using Cons.prems(1) by simp
    have "concat (map f xs) ! (k * m + j) = f (xs ! k) ! j"
      using Cons.prems Suc by (intro Cons.IH) simp_all
    then show ?thesis
      using Suc len by (simp add: nth_append add.assoc)
  qed
qed

lemma scan_length:
  assumes "\<And>row col. row < h \<Longrightarrow> col < w \<Longrightarrow> length (g row col) = n"
  shows "length (concat (map (\<lambda>row. concat (map (g row) [0..<w])) [0..<h])) = w * h * n"
proof -
  have "length (concat (map (g row) [0..<w])) = w * n" if "row < h" for row
    using that assms concat_uniform_length [of "[0..<w]" "g row" n] by simp
  then have "length (concat (map (\<lambda>row. concat (map (g row) [0..<w])) [0..<h])) = h * (w * n)"
    using concat_uniform_length [of "[0..<h]" "\<lambda>row. concat (map (g row) [0..<w])" "w * n"]
    by simp
  then show ?thesis by (simp add: mult.commute mult.left_commute)
qed

lemma scan_nth:
  assumes len: "\<And>row col. row < h \<Longrightarrow> col < w \<Longrightarrow> length (g row col) = n"
    and "row < h" "col < w" "channel < n"
  shows "concat (map (\<lambda>row. concat (map (g row) [0..<w])) [0..<h]) ! ((row * w + col) * n + channel)
           = g row col ! channel"
proof -
  have rowlen: "length (concat (map (g r) [0..<w])) = w * n" if "r < h" for r
    using that len concat_uniform_length [of "[0..<w]" "g r" n] by simp
  have "col * n + channel < w * n"
  proof -
    have "col * n + channel < col * n + n" using assms(4) by simp
    also have "\<dots> = (col + 1) * n" by simp
    also have "\<dots> \<le> w * n" using assms(3) by (intro mult_le_mono1) simp
    finally show ?thesis .
  qed
  then have "concat (map (\<lambda>row. concat (map (g row) [0..<w])) [0..<h]) ! (row * (w * n) + (col * n + channel))
        = concat (map (g row) [0..<w]) ! (col * n + channel)"
    using concat_uniform_nth [of "[0..<h]" "\<lambda>row. concat (map (g row) [0..<w])" "w * n" row "col * n + channel"]
      rowlen assms(2) by simp
  also have "\<dots> = g row col ! channel"
    using concat_uniform_nth [of "[0..<w]" "g row" n col channel] len assms(2,3,4) by simp
  finally show ?thesis
    by (simp add: algebra_simps)
qed

lemma pixel_nat:
  "nat (pixel img (int row) (int col) + int channel)
     = (row * width img + col) * numChannels img + channel"
proof -
  have "pixel img (int row) (int col) + int channel
          = int ((row * width img + col) * numChannels img + channel)"
    by (simp add: pixel_def)
  then show ?thesis by (simp only: nat_int)
qed

lemma readByte_pixel_nat:
  assumes "wf_image img" "row < height img" "col < width img" "channel < numChannels img"
  shows "readByte img (pixel img (int row) (int col) + int channel)
           = Inr (buf img ! ((row * width img + col) * numChannels img + channel))"
proof -
  have "readByte img (pixel img (int row) (int col) + int channel)
          = Inr (buf img ! nat (pixel img (int row) (int col) + int channel))"
    using assms by (intro readByte_pixel) simp_all
  then show ?thesis by (simp only: pixel_nat)
qed

lemma byte_le_255: "unat (b :: byte) \<le> 255"
  using byte_less_256 [of b] by simp

lemma byte_real_le_255: "real (unat (b :: byte)) \<le> 255"
proof -
  have "real (unat b) \<le> real 255" using byte_le_255 [of b] by (simp only: of_nat_le_iff)
  then show ?thesis by simp
qed

lemma blend_rounding:
  fixes b1 b2 :: byte
  assumes "0 \<le> t" "t \<le> 1"
  defines "z \<equiv> fl (fl (real (unat b1) * t) + fl (real (unat b2) * fl (1 - t)))"
  shows "0 \<le> z"
    and "\<bar>z - (t * real (unat b1) + (1 - t) * real (unat b2))\<bar> \<le> 1 / 2 ^ 43"
proof -
  define B1 where "B1 = real (unat b1)"
  define B2 where "B2 = real (unat b2)"
  define eps :: real where "eps = 1 / 2 ^ 53"
  have B1: "0 \<le> B1" "B1 \<le> 255" and B2: "0 \<le> B2" "B2 \<le> 255"
    using byte_real_le_255 [of b1] byte_real_le_255 [of b2] by (simp_all add: B1_def B2_def)
  have eps: "0 < eps" "eps \<le> 1 / 256" by (simp_all add: eps_def)
  have err: "\<bar>fl x - x\<bar> \<le> \<bar>x\<bar> * eps" for x
    using fl_error [of x] by (simp add: eps_def)
  define A where "A = B1 * t"
  define s where "s = fl (1 - t)"
  define C where "C = B2 * s"
  define S where "S = fl A + fl C"
  have zS: "z = fl S" by (simp add: z_def S_def A_def C_def s_def B1_def B2_def)
  have A0: "0 \<le> A" using B1 assms by (simp add: A_def)
  have A1: "A \<le> 255"
  proof -
    have "B1 * t \<le> 255 * 1" using B1 assms by (intro mult_mono) simp_all
    then show ?thesis by (simp add: A_def)
  qed
  have s0: "0 \<le> s" using assms by (simp add: s_def fl_nonneg)
  have "\<bar>s - (1 - t)\<bar> \<le> \<bar>1 - t\<bar> * eps" unfolding s_def by (rule err)
  also have "\<dots> \<le> 1 * eps" using assms eps by (intro mult_right_mono) simp_all
  finally have se: "\<bar>s - (1 - t)\<bar> \<le> eps" by simp
  have C0: "0 \<le> C" using B2 s0 by (simp add: C_def)
  have "\<bar>C - B2 * (1 - t)\<bar> = B2 * \<bar>s - (1 - t)\<bar>"
    using B2 by (simp add: C_def right_diff_distrib [symmetric] abs_mult del: right_diff_distrib)
  also have "\<dots> \<le> 255 * eps" using B2 se by (intro mult_mono) simp_all
  finally have Ce: "\<bar>C - B2 * (1 - t)\<bar> \<le> 255 * eps" .
  have "B2 * (1 - t) \<le> 255 * 1" using B2 assms by (intro mult_mono) simp_all
  then have C1: "C \<le> 256" using Ce eps by linarith
  have "\<bar>fl A - A\<bar> \<le> \<bar>A\<bar> * eps" by (rule err)
  also have "\<dots> \<le> 255 * eps" using A0 A1 eps by (intro mult_right_mono) simp_all
  finally have Ae: "\<bar>fl A - A\<bar> \<le> 255 * eps" .
  have "\<bar>fl C - C\<bar> \<le> \<bar>C\<bar> * eps" by (rule err)
  also have "\<dots> \<le> 256 * eps" using C0 C1 eps by (intro mult_right_mono) simp_all
  finally have Cf: "\<bar>fl C - C\<bar> \<le> 256 * eps" .
  have S0: "0 \<le> S" using A0 C0 by (simp add: S_def fl_nonneg)
  have Se: "\<bar>S - (A + B2 * (1 - t))\<bar> \<le> 766 * eps"
    using Ae Cf Ce unfolding S_def by linarith
  have ex: "A + B2 * (1 - t) \<le> 255"
  proof -
    have "B1 * t \<le> 255 * t" using B1 assms by (intro mult_right_mono) simp_all
    moreover have "B2 * (1 - t) \<le> 255 * (1 - t)" using B2 assms by (intro mult_right_mono) simp_all
    ultimately show ?thesis by (simp add: A_def)
  qed
  have S1: "S \<le> 258" using Se ex eps by linarith
  have "\<bar>fl S - S\<bar> \<le> \<bar>S\<bar> * eps" by (rule err)
  also have "\<dots> \<le> 258 * eps" using S0 S1 eps by (intro mult_right_mono) simp_all
  finally have Sf: "\<bar>fl S - S\<bar> \<le> 258 * eps" .
  show "0 \<le> z" using S0 by (simp add: zS fl_nonneg)
  have "\<bar>z - (A + B2 * (1 - t))\<bar> \<le> 1024 * eps"
    using Sf Se eps unfolding zS by linarith
  moreover have "1024 * eps = 1 / 2 ^ 43" by (simp add: eps_def)
  moreover have "A + B2 * (1 - t) = t * real (unat b1) + (1 - t) * real (unat b2)"
    by (simp add: A_def B1_def B2_def mult.commute)
  ultimately show "\<bar>z - (t * real (unat b1) + (1 - t) * real (unat b2))\<bar> \<le> 1 / 2 ^ 43"
    by simp
qed

lemma blend_byte_range:
  fixes b1 b2 :: byte
  assumes "0 \<le> t" "t \<le> 1"
  shows "0 \<le> \<lfloor>fl (fl (real (unat b1) * t) + fl (real (unat b2) * fl (1 - t)))\<rfloor>"
    and "\<lfloor>fl (fl (real (unat b1) * t) + fl (real (unat b2) * fl (1 - t)))\<rfloor> \<le> 255"
proof -
  let ?z = "fl (fl (real (unat b1) * t) + fl (real (unat b2) * fl (1 - t)))"
  let ?e = "t * real (unat b1) + (1 - t) * real (unat b2)"
  have z0: "0 \<le> ?z" and ze: "\<bar>?z - ?e\<bar> \<le> 1 / 2 ^ 43"
    by (rule blend_rounding [OF assms])+
  have "t * real (unat b1) \<le> t * 255"
    using byte_real_le_255 [of b1] assms(1) by (rule mult_left_mono)
  moreover have "(1 - t) * real (unat b2) \<le> (1 - t) * 255"
    using byte_real_le_255 [of b2] assms(2) by (intro mult_left_mono) simp_all
  ultimately have "?e \<le> 255" by (simp add: algebra_simps)
  moreover have "(1 / 2 ^ 43 :: real) < 1" by simp
  ultimately have "?z < 256" using ze by linarith
  then show "\<lfloor>?z\<rfloor> \<le> 255" by (simp add: floor_le_iff)
  show "0 \<le> \<lfloor>?z\<rfloor>" using z0 by (simp only: zero_le_floor)
qed

lemma narrow_of_int: "0 \<le> k \<Longrightarrow> k \<le> 255 \<Longrightarrow> narrow (of_int k) = Inr (word_of_int k)"
  by (simp add: narrow_def)

lemma uint_byte_of_int: "0 \<le> k \<Longrightarrow> k \<le> 255 \<Longrightarrow> uint (word_of_int k :: byte) = k"
  by (simp add: uint_word_of_int_eq take_bit_int_eq_self)

lemma blendChannel_Inr:
  assumes "wf_image img1" "wf_image img2" "hasSameDimsAs img1 img2"
    and "0 \<le> t" "t \<le> 1"
    and "row < height img1" "col < width img1" "channel < numChannels img1"
  shows "blendChannel img1 img2 t (pixel img1 (int row) (int col)) (pixel img2 (int row) (int col)) channel
           = Inr (word_of_int
                   \<lfloor>fl (fl (real (unat (buf img1 ! ((row * width img1 + col) * numChannels img1 + channel))) * t)
                        + fl (real (unat (buf img2 ! ((row * width img1 + col) * numChannels img1 + channel)))
                              * fl (1 - t)))\<rfloor>)"
proof -
  let ?i = "(row * width img1 + col) * numChannels img1 + channel"
  have r1: "readByte img1 (pixel img1 (int row) (int col) + int channel) = Inr (buf img1 ! ?i)"
    using assms by (intro readByte_pixel_nat) simp_all
  have "readByte img2 (pixel img2 (int row) (int col) + int channel)
          = Inr (buf img2 ! ((row * width img2 + col) * numChannels img2 + channel))"
    using assms by (intro readByte_pixel_nat) (simp_all add: hasSameDimsAs_def)
  then have r2: "readByte img2 (pixel img2 (int row) (int col) + int channel) = Inr (buf img2 ! ?i)"
    using assms(3) by (simp add: hasSameDimsAs_def)
  note rg = blend_byte_range [OF assms(4,5), of "buf img1 ! ?i" "buf img2 ! ?i"]
  show ?thesis
    by (simp only: blendChannel_def r1 r2 andThen.simps Let_def narrow_of_int [OF rg])
qed

lemma fl_blend_29:
  "fl (29 * (7720456504063707 / 18014398509481984)) = 3498331853403867 / 281474976710656"
  "fl (1 - 7720456504063707 / 18014398509481984) = 2573485501354569 / 4503599627370496"
  "fl (29 * (2573485501354569 / 4503599627370496)) = 1166110617801289 / 70368744177664"
  "fl (3498331853403867 / 281474976710656 + 1166110617801289 / 70368744177664)
     = 8162774324609023 / 281474976710656"
proof -
  have "fl (29 * (7720456504063707 / 18014398509481984))
          = of_int 6996663706807734 * 2 powi (3 - 52)"
    by (rule fl_at [where q = "223893238617847503 / 32"])
      (simp_all add: power_int_minus round_even_numeral Let_def)
  then show "fl (29 * (7720456504063707 / 18014398509481984))
               = 3498331853403867 / 281474976710656"
    by (simp add: power_int_minus)
  have "fl (1 - 7720456504063707 / 18014398509481984)
          = of_int 5146971002709138 * 2 powi (- 1 - 52)"
    by (rule fl_at [where q = "10293942005418277 / 2"])
      (simp_all add: power_int_minus round_even_numeral Let_def)
  then show "fl (1 - 7720456504063707 / 18014398509481984)
               = 2573485501354569 / 4503599627370496"
    by (simp add: power_int_minus)
  have "fl (29 * (2573485501354569 / 4503599627370496))
          = of_int 4664442471205156 * 2 powi (4 - 52)"
    by (rule fl_at [where q = "74631079539282501 / 16"])
      (simp_all add: power_int_minus round_even_numeral Let_def)
  then show "fl (29 * (2573485501354569 / 4503599627370496))
               = 1166110617801289 / 70368744177664"
    by (simp add: power_int_minus)
  have "fl (of_int 8162774324609023 / 2 ^ 48) = of_int 8162774324609023 / 2 ^ 48"
    by (rule fl_div_pow2) simp
  then show "fl (3498331853403867 / 281474976710656 + 1166110617801289 / 70368744177664)
               = 8162774324609023 / 281474976710656"
    by simp
qed

lemma blend_29: "fl (fl (29 * tBlend) + fl (29 * fl (1 - tBlend))) = 8162774324609023 / 281474976710656"
  by (simp only: tBlend_def fl_blend_29)

text \<open>
  Claim C7, as stated, fails. The claim: each output byte of a blend is
  \<open>\<lfloor>t * pixel1 + (1 - t) * pixel2\<rfloor>\<close>. The code computes \<^verbatim>\<open>pix_1[i]*t + pix_2[i]*(1-t)\<close>
  in doubles, with four roundings. For two pixels of value 29 and the double
  \<open>t = 7720456504063707 / 2\<^sup>5\<^sup>4\<close> (the double nearest to \<open>3/7\<close>) the exact combination is
  29 and the computed one is \<open>29 - 2\<^sup>-\<^sup>4\<^sup>8\<close>: the output byte is 28.
\<close>

theorem blend_floor_counterexample:
  "wf_image img29 \<and> hasSameDimsAs img29 img29
   \<and> tBlend = 7720456504063707 / 2 ^ 54 \<and> 0 \<le> tBlend \<and> tBlend \<le> 1 \<and> fl tBlend = tBlend
   \<and> \<lfloor>tBlend * real (unat (buf img29 ! 0)) + (1 - tBlend) * real (unat (buf img29 ! 0))\<rfloor> = 29
   \<and> blendImages img29 img29 tBlend
       = Inr \<lparr>width = 1, height = 1, numChannels = 1, buf = [28]\<rparr>"
proof -
  have rep: "fl tBlend = tBlend"
    using fl_div_pow2 [of 7720456504063707 54] by (simp add: tBlend_def)
  have "blendImages img29 img29 tBlend
          = Inr \<lparr>width = 1, height = 1, numChannels = 1, buf = [28]\<rparr>"
    by (simp add: img29_def hasSameDimsAs_def blendImages_def forPixels_def blendChannel_def
        readByte_def pixel_def narrow_def Let_def blend_29)
  moreover have "\<lfloor>tBlend * real (unat (buf img29 ! 0))
                   + (1 - tBlend) * real (unat (buf img29 ! 0))\<rfloor> = 29"
    by (simp add: img29_def tBlend_def)
  moreover have "tBlend = 7720456504063707 / 2 ^ 54" "0 \<le> tBlend" "tBlend \<le> 1"
    by (simp_all add: tBlend_def)
  ultimately show ?thesis
    using rep by (simp add: img29_def wf_image_def hasSameDimsAs_def)
qed

text \<open>
  Claim C7, amended. For two images of the same dimensions and channel count and \<open>t\<close> in
  \<open>[0, 1]\<close>, \<open>blendImages\<close> returns an image whose byte for each pixel and channel is
  \<open>\<lfloor>z\<rfloor>\<close>, where \<open>z\<close> is the double that the code computes for
  \<open>pixel1 * t + pixel2 * (1 - t)\<close>: the products, the difference and the sum each rounded
  to a double. \<open>z\<close> is within \<open>2\<^sup>-\<^sup>4\<^sup>3\<close> of the exact \<open>t * pixel1 + (1 - t) * pixel2\<close>, so the
  byte is the floor of the exact value or differs from it by one; \<open>\<lfloor>z\<rfloor>\<close> lies in
  \<open>[0, 255]\<close>, so the narrowing to a byte is defined without a clamp.
\<close>

theorem blendImages_bytes:
  assumes "wf_image img1" and "wf_image img2" and "hasSameDimsAs img1 img2"
    and "0 \<le> t" and "t \<le> 1"
  shows "\<exists>result. blendImages img1 img2 t = Inr result
           \<and> hasSameDimsAs result img1 \<and> wf_image result
           \<and> (\<forall>row col channel.
                 row < height img1 \<and> col < width img1 \<and> channel < numChannels img1 \<longrightarrow>
                 (let i = (row * width img1 + col) * numChannels img1 + channel;
                      z = fl (fl (real (unat (buf img1 ! i)) * t)
                              + fl (real (unat (buf img2 ! i)) * fl (1 - t)))
                  in 0 \<le> \<lfloor>z\<rfloor> \<and> \<lfloor>z\<rfloor> \<le> 255 \<and> uint (buf result ! i) = \<lfloor>z\<rfloor>
                     \<and> \<bar>z - (t * real (unat (buf img1 ! i)) + (1 - t) * real (unat (buf img2 ! i)))\<bar>
                         \<le> 1 / 2 ^ 43))"
proof -
  let ?w = "width img1" and ?h = "height img1" and ?n = "numChannels img1"
  let ?z = "\<lambda>row col channel.
      fl (fl (real (unat (buf img1 ! ((row * ?w + col) * ?n + channel))) * t)
          + fl (real (unat (buf img2 ! ((row * ?w + col) * ?n + channel))) * fl (1 - t)))"
  let ?g = "\<lambda>row col. map (\<lambda>channel. word_of_int \<lfloor>?z row col channel\<rfloor> :: byte) [0..<?n]"
  let ?bytes = "concat (map (\<lambda>row. concat (map (?g row) [0..<?w])) [0..<?h])"
  let ?result = "\<lparr>width = ?w, height = ?h, numChannels = ?n, buf = ?bytes\<rparr>"
  have px: "mapM (blendChannel img1 img2 t (pixel img1 (int row) (int col))
                    (pixel img2 (int row) (int col))) [0..<?n] = Inr (?g row col)"
    if "row < ?h" "col < ?w" for row col
    using that assms by (intro mapM_Inr) (simp add: blendChannel_Inr)
  have scan: "forPixels ?h ?w (\<lambda>row col.
                 mapM (blendChannel img1 img2 t (pixel img1 (int row) (int col))
                         (pixel img2 (int row) (int col))) [0..<?n]) = Inr ?bytes"
    using px by (rule forPixels_Inr)
  have res: "blendImages img1 img2 t = Inr ?result"
    using assms(3) by (simp add: blendImages_def Let_def scan)
  have len: "length ?bytes = ?w * ?h * ?n"
    by (rule scan_length) simp
  have byte: "buf ?result ! ((row * ?w + col) * ?n + channel) = word_of_int \<lfloor>?z row col channel\<rfloor>"
    if "row < ?h" "col < ?w" "channel < ?n" for row col channel
  proof -
    have "?bytes ! ((row * ?w + col) * ?n + channel) = ?g row col ! channel"
      using that by (intro scan_nth) simp_all
    then show ?thesis using that by simp
  qed
  have "hasSameDimsAs ?result img1" by (simp add: hasSameDimsAs_def)
  moreover have "wf_image ?result" using len assms(1) by (simp add: wf_image_def)
  moreover have "\<forall>row col channel.
      row < ?h \<and> col < ?w \<and> channel < ?n \<longrightarrow>
      (let i = (row * ?w + col) * ?n + channel;
           z = fl (fl (real (unat (buf img1 ! i)) * t) + fl (real (unat (buf img2 ! i)) * fl (1 - t)))
       in 0 \<le> \<lfloor>z\<rfloor> \<and> \<lfloor>z\<rfloor> \<le> 255 \<and> uint (buf ?result ! i) = \<lfloor>z\<rfloor>
          \<and> \<bar>z - (t * real (unat (buf img1 ! i)) + (1 - t) * real (unat (buf img2 ! i)))\<bar>
              \<le> 1 / 2 ^ 43)"
  proof (intro allI impI)
    fix row col channel
    assume a: "row < ?h \<and> col < ?w \<and> channel < ?n"
    let ?i = "(row * ?w + col) * ?n + channel"
    note rg = blend_byte_range [OF assms(4,5), of "buf img1 ! ?i" "buf img2 ! ?i"]
    note near = blend_rounding(2) [OF assms(4,5), of "buf img1 ! ?i" "buf img2 ! ?i"]
    have "uint (buf ?result ! ?i) = \<lfloor>?z row col channel\<rfloor>"
      using a byte [of row col channel] uint_byte_of_int [OF rg] by simp
    then show "let i = ?i;
           z = fl (fl (real (unat (buf img1 ! i)) * t) + fl (real (unat (buf img2 ! i)) * fl (1 - t)))
       in 0 \<le> \<lfloor>z\<rfloor> \<and> \<lfloor>z\<rfloor> \<le> 255 \<and> uint (buf ?result ! i) = \<lfloor>z\<rfloor>
          \<and> \<bar>z - (t * real (unat (buf img1 ! i)) + (1 - t) * real (unat (buf img2 ! i)))\<bar>
              \<le> 1 / 2 ^ 43"
      using rg near by (simp only: Let_def simp_thms)
  qed
  ultimately show ?thesis using res by blast
qed

text \<open>
  Two single RGBA pixels \<open>(100, 100, 100, 255)\<close> and \<open>(200, 200, 200, 255)\<close> blended at
  \<open>t = 1/2\<close> give \<open>(150, 150, 150, 255)\<close>.
\<close>

theorem blendImages_bytes_witness:
  "wf_image img11 \<and> wf_image img11b \<and> hasSameDimsAs img11 img11b
   \<and> (0 :: real) \<le> 1 / 2 \<and> (1 / 2 :: real) \<le> 1
   \<and> blendImages img11 img11b (1 / 2)
       = Inr \<lparr>width = 1, height = 1, numChannels = 4, buf = [150, 150, 150, 255]\<rparr>"
  using blendImages_bytes [of img11 img11b "1 / 2"]
  by (simp add: img11_def img11b_def wf_image_def hasSameDimsAs_def blendImages_def forPixels_def
      blendChannel_def readByte_def pixel_def narrow_def Let_def upt_4 fl_numeral fl_numeral_half)

section \<open>The morph is two warps and a blend\<close>

text \<open>
  A warp keeps the dimensions of its input, so the blend inside \<open>morphImages\<close> meets its
  assertion whenever the two inputs have the same dimensions.
\<close>

lemma distortImage_dims:
  "distortImage img seg_start seg_end t a b p = Inr result \<Longrightarrow> hasSameDimsAs result img"
  by (auto simp: distortImage_def Let_def hasSameDimsAs_def andThen_Inr_iff split: if_splits)

lemma sourceLocation_seg01:
  "sourceLocation [seg01] [seg01] (1 / 2) (1 / 2) 1 0 (Vec2 0 0) = Inr (Vec2 0 0)"
  by (simp add: sourceLocation_def featureTerm_def weight_def lerp_def seg01_def lineParameter_def
      signedLineDistance_def segmentDistance_def seg_length_def length2_def perp_def direction_def
      Vec2_perp_def Vec2_dot_def Vec2_sub_def Vec2_add_def Vec2_scale_def Vec2_div_def
      Vec2_length2_def Vec2_length_def fdiv_def pow_def toInt_def wrap32_def Let_def fl_numeral)

text \<open>
  Claim C8. For images of identical dimensions, \<open>morphImages\<close> is the blend, with weight
  \<open>1 - t\<close> on the first operand, of the warp of \<open>img1\<close> from \<open>seg1\<close> to \<open>seg2\<close> at time
  \<open>t\<close> and the warp of \<open>img2\<close> from \<open>seg2\<close> to \<open>seg1\<close> at time \<open>1 - t\<close>, where \<open>1 - t\<close> is
  the double that the subtraction yields (\<open>t\<close> is a double). Index alignment
  of the segment arrays and the range of \<open>t\<close> are not needed for the equation: a warp that
  fails makes both sides fail alike.
\<close>

theorem morphImages_composition:
  assumes "hasSameDimsAs img1 img2"
  shows "morphImages img1 img2 seg1 seg2 t a b p =
           andThen (distortImage img1 seg1 seg2 t a b p) (\<lambda>warped1.
           andThen (distortImage img2 seg2 seg1 (fl (1 - t)) a b p) (\<lambda>warped2.
             blendImages warped1 warped2 (fl (1 - t))))"
  using assms by (simp add: morphImages_def)

text \<open>
  Two RGBA pixels with the one feature \<open>seg01\<close> in both images, at \<open>t = 1/2\<close>: each warp
  returns its input and the morph is their blend \<open>(150, 150, 150, 255)\<close>.
\<close>

theorem morphImages_composition_witness:
  "hasSameDimsAs img11 img11b
   \<and> distortImage img11 [seg01] [seg01] (1 / 2) (1 / 2) 1 0 = Inr img11
   \<and> distortImage img11b [seg01] [seg01] (fl (1 - 1 / 2)) (1 / 2) 1 0 = Inr img11b
   \<and> blendImages img11 img11b (fl (1 - 1 / 2))
       = Inr \<lparr>width = 1, height = 1, numChannels = 4, buf = [150, 150, 150, 255]\<rparr>
   \<and> morphImages img11 img11b [seg01] [seg01] (1 / 2) (1 / 2) 1 0
       = Inr \<lparr>width = 1, height = 1, numChannels = 4, buf = [150, 150, 150, 255]\<rparr>"
proof -
  have same: "hasSameDimsAs img11 img11b"
    by (simp add: img11_def img11b_def hasSameDimsAs_def)
  have half: "fl (1 - 1 / 2) = 1 / 2" by simp
  have s1: "sampleBilinear img11 (Vec2 0 0) = Inr [100, 100, 100, 255]"
    using sampleBilinear_pixel [of img11 0 0] by (simp add: img11_def wf_image_def pixel_def upt_4)
  have s2: "sampleBilinear img11b (Vec2 0 0) = Inr [200, 200, 200, 255]"
    using sampleBilinear_pixel [of img11b 0 0] by (simp add: img11b_def wf_image_def pixel_def upt_4)
  have dims: "width img11 = 1" "height img11 = 1" "numChannels img11 = 4"
    "width img11b = 1" "height img11b = 1" "numChannels img11b = 4"
    by (simp_all add: img11_def img11b_def)
  have "distortImage img11 [seg01] [seg01] (1 / 2) (1 / 2) 1 0
          = Inr \<lparr>width = 1, height = 1, numChannels = 4, buf = [100, 100, 100, 255]\<rparr>"
    by (simp add: distortImage_def forPixels_def dims sourceLocation_seg01 s1)
  then have d1: "distortImage img11 [seg01] [seg01] (1 / 2) (1 / 2) 1 0 = Inr img11"
    by (simp add: img11_def)
  have "distortImage img11b [seg01] [seg01] (1 / 2) (1 / 2) 1 0
          = Inr \<lparr>width = 1, height = 1, numChannels = 4, buf = [200, 200, 200, 255]\<rparr>"
    by (simp add: distortImage_def forPixels_def dims sourceLocation_seg01 s2)
  then have d2: "distortImage img11b [seg01] [seg01] (1 / 2) (1 / 2) 1 0 = Inr img11b"
    by (simp add: img11b_def)
  have bl: "blendImages img11 img11b (1 / 2)
       = Inr \<lparr>width = 1, height = 1, numChannels = 4, buf = [150, 150, 150, 255]\<rparr>"
    by (simp add: img11_def img11b_def hasSameDimsAs_def blendImages_def forPixels_def
      blendChannel_def readByte_def pixel_def narrow_def Let_def upt_4 fl_numeral fl_numeral_half)
  show ?thesis
    using morphImages_composition [OF same, of "[seg01]" "[seg01]" "1 / 2" "1 / 2" 1 0]
    by (simp only: half same d1 d2 bl andThen.simps simp_thms)
qed

section \<open>Divisions by zero in the warp\<close>

text \<open>
  \<open>distortImage\<close> divides by the length of the start segment, by the squared length and
  the length of the interpolated segment, by \<open>a\<close> plus the segment distance and by the
  total weight, and guards none of these divisions.
\<close>

lemma featureTerm_error: "featureTerm t a b p cur s e = Inl err \<Longrightarrow> err = NonFinite"
  by (auto simp: featureTerm_def weight_def lineParameter_def signedLineDistance_def Vec2_div_def
      fdiv_def pow_def Let_def split: if_splits)

lemma seg_length_degenerate: "start s = endp s \<Longrightarrow> seg_length s = 0"
  by (simp add: seg_length_def length2_def Vec2_length2_def Vec2_sub_def)

lemma featureTerm_degenerate:
  assumes "start s = endp s"
  shows "featureTerm t a b p cur s e = Inl NonFinite"
proof (cases "featureTerm t a b p cur s e")
  case (Inl err)
  then show ?thesis using featureTerm_error by blast
next
  case (Inr r)
  have "Vec2_div (perp s) (seg_length s) = Inl NonFinite"
    by (simp add: Vec2_div_def fdiv_def seg_length_degenerate [OF assms])
  then have "\<exists>err. featureTerm t a b p cur s e = Inl err"
    by (cases "lineParameter (lerp s e t) cur"; cases "signedLineDistance (lerp s e t) cur")
       (simp_all add: featureTerm_def Let_def)
  with Inr show ?thesis by simp
qed

lemma featureLoop_degenerate:
  assumes "length ss = length es" "s \<in> set ss" "start s = endp s"
  shows "featureLoop t a b p cur ss es acc = Inl NonFinite"
  using assms
proof (induction ss es arbitrary: acc rule: list_induct2)
  case Nil
  then show ?case by simp
next
  case (Cons x xs y ys)
  obtain dissum wtsum where acc: "acc = (dissum, wtsum)" by (cases acc)
  show ?case
  proof (cases "featureTerm t a b p cur x y")
    case (Inl err)
    then have "err = NonFinite" by (rule featureTerm_error)
    with Inl show ?thesis by (simp add: acc)
  next
    case (Inr r)
    then have "x \<noteq> s" using featureTerm_degenerate [OF Cons.prems(2), of t a b p cur y] by auto
    then have "s \<in> set xs" using Cons.prems(1) by simp
    then have "featureLoop t a b p cur xs ys acc' = Inl NonFinite" for acc'
      using Cons.IH Cons.prems(2) by blast
    with Inr show ?thesis by (simp add: acc split: prod.splits)
  qed
qed

lemma sourceLocation_degenerate:
  assumes "length seg_start = length seg_end" "s \<in> set seg_start" "start s = endp s"
  shows "sourceLocation seg_start seg_end t a b p cur = Inl NonFinite"
  by (simp add: sourceLocation_def featureLoop_degenerate [OF assms])

lemma sourceLocation_zero_weight:
  "featureLoop t a b p cur seg_start seg_end (Vec2 0 0, 0) = Inr (dissum, 0)
     \<Longrightarrow> sourceLocation seg_start seg_end t a b p cur = Inl NonFinite"
  by (simp add: sourceLocation_def Vec2_div_def fdiv_def)

lemma sourceLocation_empty: "sourceLocation [] [] t a b p cur = Inl NonFinite"
  by (simp add: sourceLocation_def Vec2_div_def fdiv_def)

lemma distortImage_all_fail:
  assumes "length seg_start = length seg_end" "0 < width img" "0 < height img"
    and "\<And>row col. sourceLocation seg_start seg_end t a b p (Vec2 (real col) (real row)) = Inl e"
  shows "distortImage img seg_start seg_end t a b p = Inl e"
proof -
  have "forPixels (height img) (width img) (\<lambda>row col.
           andThen (sourceLocation seg_start seg_end t a b p (Vec2 (real col) (real row)))
             (\<lambda>interpolated.
           andThen (sampleBilinear img interpolated) (\<lambda>sample. Inr (take (numChannels img) sample))))
        = Inl e"
    using assms(2,3) by (intro forPixels_all_Inl) (simp_all add: assms(4))
  then show ?thesis using assms(1) by (simp add: distortImage_def Let_def)
qed

lemma forPixels_no_pixels:
  assumes "w = 0 \<or> h = 0"
  shows "forPixels h w f = Inr []"
proof -
  have "forPixels h w f
          = Inr (concat (map (\<lambda>row. concat (map (\<lambda>col. []) [0..<w])) [0..<h]))"
    using assms by (intro forPixels_Inr) auto
  moreover have "concat (map (\<lambda>row. concat (map (\<lambda>col. []) [0..<w])) [0..<h]) = ([] :: byte list)"
    by simp
  ultimately show ?thesis by simp
qed

lemma distortImage_no_pixels:
  assumes "wf_image img" "length seg_start = length seg_end" "width img = 0 \<or> height img = 0"
  shows "distortImage img seg_start seg_end t a b p = Inr img"
proof -
  have b: "buf img = []" using assms(1,3) by (auto simp: wf_image_def)
  have "img = \<lparr>width = width img, height = height img, numChannels = numChannels img, buf = []\<rparr>"
    using b by (cases img) simp
  then show ?thesis
    using assms(2) by (simp add: distortImage_def Let_def forPixels_no_pixels [OF assms(3)])
qed

lemma img11_facts: "wf_image img11" "0 < width img11" "0 < height img11"
  by (simp_all add: img11_def wf_image_def)

text \<open>
  Claim C2, as stated, fails. The claim: where the feature array is empty or the total
  weight is 0, the final source location is the pixel itself, and
  \<open>distort(I, [], [], t, a, b, p) = I\<close>. The code has no such fallback: with no feature
  it divides the zero displacement by the zero weight, and the location is not a finite
  point: it is not the pixel, and the warp of a one-pixel image samples its pixel there.
\<close>

theorem identity_fallback_counterexample:
  "sourceLocation [] [] (1 / 2) (1 / 2) 1 (1 / 5) (Vec2 0 0) = Inl NonFinite
   \<and> distortImage img11 [] [] (1 / 2) (1 / 2) 1 (1 / 5) = Inl NonFinite"
  by (simp add: sourceLocation_empty distortImage_all_fail img11_facts)

text \<open>
  Claim C2, amended. There is no identity fallback. Where the total weight accumulated at
  a pixel is 0, and so where the feature array is empty, the final source location is the
  pixel plus \<open>dissum/wtsum\<close> with a zero divisor, which is not a finite point (a NaN in
  IEEE arithmetic). For an image with at least one pixel the warp with no features then
  samples at a non-finite location and its output bytes are not well-defined.
\<close>

theorem sourceLocation_zero_total_weight:
  "(featureLoop t a b p X seg_start seg_end (Vec2 0 0, 0) = Inr (dissum, 0)
      \<longrightarrow> sourceLocation seg_start seg_end t a b p X = Inl NonFinite)
   \<and> sourceLocation [] [] t a b p X = Inl NonFinite
   \<and> (0 < width img \<and> 0 < height img \<longrightarrow> distortImage img [] [] t a b p = Inl NonFinite)"
proof (intro conjI impI)
  assume "featureLoop t a b p X seg_start seg_end (Vec2 0 0, 0) = Inr (dissum, 0)"
  then show "sourceLocation seg_start seg_end t a b p X = Inl NonFinite"
    by (rule sourceLocation_zero_weight)
next
  show "sourceLocation [] [] t a b p X = Inl NonFinite"
    by (rule sourceLocation_empty)
next
  assume "0 < width img \<and> 0 < height img"
  then show "distortImage img [] [] t a b p = Inl NonFinite"
    by (intro distortImage_all_fail) (simp_all add: sourceLocation_empty)
qed

text \<open>
  The total weight is 0 with features as well. With \<open>a = -1\<close>, \<open>b = 1\<close>, \<open>p = 0\<close> and the
  features \<open>seg01\<close> and \<open>seg24\<close>, unmoved, the pixel \<open>(0, 0)\<close> is at distance 0 from the
  first and 2 from the second: the weights are \<open>1/(-1 + 0) = -1\<close> and \<open>1/(-1 + 2) = 1\<close>,
  their sum is 0 and the source location is not finite. So is every source location of
  the one-pixel image warped with no features.
\<close>

theorem sourceLocation_zero_total_weight_witness:
  "featureLoop (1 / 2) (- 1) 1 0 (Vec2 0 0) [seg01, seg24] [seg01, seg24] (Vec2 0 0, 0)
     = Inr (Vec2 0 0, 0)
   \<and> sourceLocation [seg01, seg24] [seg01, seg24] (1 / 2) (- 1) 1 0 (Vec2 0 0) = Inl NonFinite
   \<and> 0 < width img11 \<and> 0 < height img11
   \<and> distortImage img11 [] [] (1 / 2) (- 1) 1 0 = Inl NonFinite"
proof -
  have loop: "featureLoop (1 / 2) (- 1) 1 0 (Vec2 0 0) [seg01, seg24] [seg01, seg24] (Vec2 0 0, 0)
                = Inr (Vec2 0 0, 0)"
    by (simp add: featureTerm_def weight_def lerp_def seg01_def seg24_def lineParameter_def
        signedLineDistance_def segmentDistance_def seg_length_def length2_def perp_def direction_def
        Vec2_perp_def Vec2_dot_def Vec2_sub_def Vec2_add_def Vec2_scale_def Vec2_div_def
        Vec2_length2_def Vec2_length_def fdiv_def pow_def toInt_def wrap32_def Let_def
        fl_numeral fl_neg_numeral)
  note zero = sourceLocation_zero_total_weight
      [of "1 / 2" "- 1" 1 0 "Vec2 0 0" "[seg01, seg24]" "[seg01, seg24]" "Vec2 0 0" img11]
  have "sourceLocation [seg01, seg24] [seg01, seg24] (1 / 2) (- 1) 1 0 (Vec2 0 0) = Inl NonFinite"
    using zero loop by blast
  moreover have "distortImage img11 [] [] (1 / 2) (- 1) 1 0 = Inl NonFinite"
    using zero img11_facts by blast
  ultimately show ?thesis
    using loop img11_facts by blast
qed

text \<open>
  Claim C3, as stated, fails. The claim: a zero-length start segment contributes weight
  0, is excluded from the blend, and no NaN propagates. With the one feature \<open>seg01\<close>
  the pixel \<open>(0, 0)\<close> maps to itself; adding a zero-length start segment in front makes
  the source location of the pixel, and the warp of a one-pixel image, non-finite.
\<close>

theorem degenerate_segment_counterexample:
  "start segDegenerate = endp segDegenerate
   \<and> sourceLocation [seg01] [seg01] (1 / 2) (1 / 2) 1 0 (Vec2 0 0) = Inr (Vec2 0 0)
   \<and> sourceLocation [segDegenerate, seg01] [seg01, seg01] (1 / 2) (1 / 2) 1 0 (Vec2 0 0)
       = Inl NonFinite
   \<and> distortImage img11 [segDegenerate, seg01] [seg01, seg01] (1 / 2) (1 / 2) 1 0 = Inl NonFinite"
proof -
  have d: "start segDegenerate = endp segDegenerate" by (simp add: segDegenerate_def)
  have src: "sourceLocation [segDegenerate, seg01] [seg01, seg01] (1 / 2) (1 / 2) 1 0 X
               = Inl NonFinite" for X
    using d by (intro sourceLocation_degenerate [where s = segDegenerate]) simp_all
  have "distortImage img11 [segDegenerate, seg01] [seg01, seg01] (1 / 2) (1 / 2) 1 0 = Inl NonFinite"
    by (intro distortImage_all_fail) (simp_all add: img11_facts src)
  with d src sourceLocation_seg01 show ?thesis by simp
qed

text \<open>
  Claim C3, amended. A zero-length start segment is not excluded: the code divides its
  perpendicular by its length 0, so the displacement of that feature is not finite (a NaN
  in IEEE arithmetic), and this propagates to the final source location of every
  destination pixel; for an image with at least one pixel the warp then samples at a
  non-finite location and no output byte is defined.
\<close>

theorem degenerate_start_segment_not_excluded:
  assumes "length seg_start = length seg_end" and "s \<in> set seg_start" and "start s = endp s"
  shows "sourceLocation seg_start seg_end t a b p X = Inl NonFinite
         \<and> (0 < width img \<and> 0 < height img
              \<longrightarrow> distortImage img seg_start seg_end t a b p = Inl NonFinite)"
proof (intro conjI impI)
  show "sourceLocation seg_start seg_end t a b p X = Inl NonFinite"
    using assms by (rule sourceLocation_degenerate)
next
  assume "0 < width img \<and> 0 < height img"
  then show "distortImage img seg_start seg_end t a b p = Inl NonFinite"
    using assms(1) by (intro distortImage_all_fail) (simp_all add: sourceLocation_degenerate [OF assms])
qed

theorem degenerate_start_segment_not_excluded_witness:
  "length [seg01, segDegenerate] = length [seg01, seg01]
   \<and> segDegenerate \<in> set [seg01, segDegenerate]
   \<and> start segDegenerate = endp segDegenerate
   \<and> sourceLocation [seg01, segDegenerate] [seg01, seg01] (1 / 2) (1 / 2) 1 (1 / 5) (Vec2 1 0)
       = Inl NonFinite
   \<and> 0 < width img22 \<and> 0 < height img22
   \<and> distortImage img22 [seg01, segDegenerate] [seg01, seg01] (1 / 2) (1 / 2) 1 (1 / 5)
       = Inl NonFinite"
  using degenerate_start_segment_not_excluded
    [of "[seg01, segDegenerate]" "[seg01, seg01]" segDegenerate "1 / 2" "1 / 2" 1 "1 / 5" "Vec2 1 0" img22]
  by (simp add: segDegenerate_def img22_def)

section \<open>The warp between equal feature arrays\<close>



























section \<open>The weight of a feature\<close>

text \<open>
  The loop of \<open>distortImage\<close> takes \<open>u\<close> and \<open>v\<close> from the interpolated segment
  \<^verbatim>\<open>end_ln\<close> and then calls \<^verbatim>\<open>length\<close> and \<^verbatim>\<open>segmentDistance\<close> on the start segment
  \<^verbatim>\<open>start_ln\<close>: whenever the loop body yields a weight, it is the weight of the start
  segment at the \<open>u\<close>, \<open>v\<close> of the interpolated one.
\<close>

lemma featureTerm_weight:
  assumes "featureTerm t a b p cur start_ln seg_end_i = Inr (dis, wt)"
  shows "\<exists>u v. lineParameter (lerp start_ln seg_end_i t) cur = Inr u
           \<and> signedLineDistance (lerp start_ln seg_end_i t) cur = Inr v
           \<and> weight a b p start_ln cur u v = Inr wt"
  using assms by (auto simp: featureTerm_def Let_def andThen_Inr_iff)

text \<open>
  Claim C1 says that the weight of feature \<open>i\<close> at pixel \<open>X\<close> is
  \<open>(length(R)^p / (a + R.segmentDistance(X, u, v)))^b\<close> for the interpolated segment
  \<open>R = lerp(startSegs[i], endSegs[i], t)\<close>, not for the start segment. The code evaluated
  at the start segment \<open>seg01\<close>, the end segment \<open>seg47\<close>, \<open>t = 1/2\<close>, \<open>a = b = p = 1\<close> and
  the pixel \<open>(0, 0)\<close>: \<open>R\<close> is \<open>seg24\<close>, \<open>u = -1\<close> and \<open>v = 0\<close>; the loop body accumulates
  the weight 1, which is the formula on the start segment (length 1, distance 0), while
  the formula on \<open>R\<close> (length 2, distance 2) is \<open>2/3\<close>, rounded to a double.
\<close>

theorem weight_of_start_segment_at_input:
  "lerp seg01 seg47 (1 / 2) = seg24
   \<and> lineParameter seg24 (Vec2 0 0) = Inr (- 1)
   \<and> signedLineDistance seg24 (Vec2 0 0) = Inr 0
   \<and> featureTerm (1 / 2) 1 1 1 (Vec2 0 0) seg01 seg47 = Inr (Vec2 (- 1) 0, 1)
   \<and> weight 1 1 1 seg01 (Vec2 0 0) (- 1) 0 = Inr 1
   \<and> weight 1 1 1 seg24 (Vec2 0 0) (- 1) 0 = Inr (fl (2 / 3))
   \<and> fl (2 / 3) = 6004799503160661 / 9007199254740992"
proof -
  have f23: "fl (2 / 3) = 6004799503160661 / 9007199254740992"
  proof -
    have "fl (2 / 3) = of_int 6004799503160661 * 2 powi (- 1 - 52)"
      by (rule fl_at [where q = "18014398509481984 / 3"])
        (simp_all add: power_int_minus round_even_numeral Let_def)
    then show ?thesis by (simp add: power_int_minus)
  qed
  have ff23: "fl (6004799503160661 / 9007199254740992) = 6004799503160661 / 9007199254740992"
    using fl_div_pow2 [of 6004799503160661 53] by simp
  have l: "lerp seg01 seg47 (1 / 2) = seg24"
    by (simp add: lerp_def seg01_def seg47_def seg24_def Vec2_add_def Vec2_scale_def
        fl_numeral fl_numeral_half)
  have u: "lineParameter seg24 (Vec2 0 0) = Inr (- 1)"
    by (simp add: seg24_def lineParameter_def length2_def Vec2_dot_def Vec2_sub_def
        Vec2_length2_def fdiv_def fl_numeral fl_neg_numeral)
  have len24: "seg_length seg24 = 2"
    by (simp add: seg24_def seg_length_def length2_def Vec2_sub_def Vec2_length2_def fl_numeral)
  have len01: "seg_length seg01 = 1"
    by (simp add: seg01_def seg_length_def length2_def Vec2_sub_def Vec2_length2_def)
  have v: "signedLineDistance seg24 (Vec2 0 0) = Inr 0"
    by (simp add: signedLineDistance_def len24 fdiv_def)
       (simp add: seg24_def perp_def direction_def Vec2_perp_def Vec2_dot_def Vec2_sub_def
         fl_numeral fl_neg_numeral)
  have d01: "segmentDistance seg01 (Vec2 0 0) (- 1) 0 = 0"
    by (simp add: segmentDistance_def seg01_def Vec2_length_def Vec2_length2_def Vec2_sub_def)
  have d24: "segmentDistance seg24 (Vec2 0 0) (- 1) 0 = 2"
    by (simp add: segmentDistance_def seg24_def Vec2_length_def Vec2_length2_def Vec2_sub_def
        fl_numeral fl_neg_numeral)
  have w01: "weight 1 1 1 seg01 (Vec2 0 0) (- 1) 0 = Inr 1"
    by (simp add: weight_def len01 d01 pow_def fdiv_def)
  have w24: "weight 1 1 1 seg24 (Vec2 0 0) (- 1) 0 = Inr (fl (2 / 3))"
    by (simp add: weight_def len24 d24 pow_def fdiv_def fl_numeral f23 ff23)
  have q: "Vec2_div (perp seg01) (seg_length seg01) = Inr (Vec2 0 1)"
    by (simp add: len01 Vec2_div_def fdiv_def)
       (simp add: seg01_def perp_def direction_def Vec2_perp_def Vec2_sub_def)
  have ft: "featureTerm (1 / 2) 1 1 1 (Vec2 0 0) seg01 seg47 = Inr (Vec2 (- 1) 0, 1)"
    by (simp add: featureTerm_def l u v q w01 Let_def)
       (simp add: seg01_def direction_def Vec2_add_def Vec2_scale_def Vec2_sub_def)
  from l u v ft w01 w24 f23 show ?thesis by (simp only: simp_thms)
qed

end
